theory Spec2Isabelle
  imports
    Complex_Main
    "HOL-Library.Word"
    "HOL-Library.Multiset"
    "HOL-Library.Char_ord"
    "HOL-Library.List_Lexorder"
    "HOL-Library.Product_Lexorder"
begin

section \<open>Python's \<^verbatim>\<open>queue.Queue\<close>, as the orchestrator and the alert system use it\<close>

text \<open>
  A \<^verbatim>\<open>queue.Queue(maxsize)\<close> is a FIFO with an optional bound: \<^verbatim>\<open>maxsize <= 0\<close> (the
  default of the constructor is 0) means no bound at all. \<^verbatim>\<open>full()\<close> is
  \<^verbatim>\<open>0 < maxsize <= qsize()\<close>; \<^verbatim>\<open>put(x, block=False)\<close> raises \<^verbatim>\<open>queue.Full\<close> exactly when
  the queue is full, and \<^verbatim>\<open>get_nowait()\<close> raises \<^verbatim>\<open>queue.Empty\<close> exactly when it is empty.
\<close>

record 'a py_queue =
  maxsize :: int
  items :: "'a list"

datatype queue_error = Full | Empty

definition Queue :: "int \<Rightarrow> 'a py_queue" where
  "Queue m = \<lparr>maxsize = m, items = []\<rparr>"

definition qsize :: "'a py_queue \<Rightarrow> nat" where
  "qsize q = length (items q)"

definition full :: "'a py_queue \<Rightarrow> bool" where
  "full q = (0 < maxsize q \<and> maxsize q \<le> int (qsize q))"

definition put_nowait :: "'a py_queue \<Rightarrow> 'a \<Rightarrow> queue_error + 'a py_queue" where
  "put_nowait q x = (if full q then Inl Full else Inr (q\<lparr>items := items q @ [x]\<rparr>))"

definition get_nowait :: "'a py_queue \<Rightarrow> queue_error + ('a \<times> 'a py_queue)" where
  "get_nowait q =
     (case items q of
        [] \<Rightarrow> Inl Empty
      | x # xs \<Rightarrow> Inr (x, q\<lparr>items := xs\<rparr>))"


section \<open>The standalone orchestrator: offering a frame to the detection loop\<close>

text \<open>
  \<^verbatim>\<open>ObstacleAssistant.__init__\<close> creates \<^verbatim>\<open>frame_queue = queue.Queue(maxsize=2)\<close>.
\<close>

definition frame_queue_init :: "'f py_queue" where
  "frame_queue_init = Queue 2"

text \<open>
  Lines 247 to 257 of \<^verbatim>\<open>_video_capture_thread\<close>, for one captured frame:

  \<^verbatim>\<open>if not self.frame_queue.full():
      try: self.frame_queue.put(frame.copy(), block=False)
      except queue.Full:
          try:
              self.frame_queue.get_nowait()
              self.frame_queue.put(frame.copy(), block=False)
          except queue.Empty: pass\<close>

  The eviction sits in the handler of the \<^verbatim>\<open>put\<close> that is only attempted when the queue
  is not full. A \<^verbatim>\<open>queue.Full\<close> raised by the second \<^verbatim>\<open>put\<close> is not caught here: it
  leaves the loop through the thread's outer handler, the \<^verbatim>\<open>Inl Full\<close> of the model.
\<close>

definition offer_frame :: "'f py_queue \<Rightarrow> 'f \<Rightarrow> queue_error + 'f py_queue" where
  "offer_frame q frame =
     (if \<not> full q then
        (case put_nowait q frame of
           Inr q' \<Rightarrow> Inr q'
         | Inl _ \<Rightarrow>
             (case get_nowait q of
                Inl _ \<Rightarrow> Inr q
              | Inr (_, q1) \<Rightarrow> put_nowait q1 frame))
      else Inr q)"

text \<open>
  The capture loop over a burst of frames, with the detection loop taking nothing in
  between; the loop ends at the first exception.
\<close>

fun video_capture_thread :: "'f py_queue \<Rightarrow> 'f list \<Rightarrow> queue_error + 'f py_queue" where
  "video_capture_thread q [] = Inr q"
| "video_capture_thread q (frame # frames) =
     (case offer_frame q frame of
        Inl e \<Rightarrow> Inl e
      | Inr q' \<Rightarrow> video_capture_thread q' frames)"


section \<open>The obstacle alert system\<close>

text \<open>The settings of \<^verbatim>\<open>config.py\<close> that the alert system reads, with their defaults.\<close>

record config =
  ALERT_ENABLED :: bool
  ALERT_CLOSE_FREQUENCY :: int
  ALERT_MEDIUM_FREQUENCY :: int
  ALERT_FAR_FREQUENCY :: int
  ALERT_DURATION :: real
  ALERT_DEBOUNCE_TIME :: real

definition default_config :: config where
  "default_config =
     \<lparr>ALERT_ENABLED = True, ALERT_CLOSE_FREQUENCY = 900, ALERT_MEDIUM_FREQUENCY = 600,
      ALERT_FAR_FREQUENCY = 300, ALERT_DURATION = 1 / 10, ALERT_DEBOUNCE_TIME = 3 / 10\<rparr>"

text \<open>
  An alert message is the dictionary the alerting API builds. Every message has the keys
  \<^verbatim>\<open>type\<close>, \<^verbatim>\<open>frequency\<close>, \<^verbatim>\<open>duration\<close> and \<^verbatim>\<open>priority\<close>; the other keys depend on the
  producer. Durations and times are floats in the source and reals here.
\<close>

record alert_data =
  ad_type :: string
  ad_frequency :: int
  ad_duration :: real
  ad_priority :: string
  ad_proximity :: "string option"
  ad_obstacle_type :: "string option"
  ad_noise_type :: "string option"
  ad_intensity :: "real option"

text \<open>
  The state of an \<^verbatim>\<open>ObstacleAlert\<close>. \<^verbatim>\<open>played\<close> is the trace of the tones handed to the
  audio backend, as (frequency, duration), oldest first.
\<close>

record obstacle_alert =
  enabled :: bool
  alert_queue :: "alert_data py_queue"
  last_alert_time :: "string \<rightharpoonup> real"
  debounce_time :: real
  played :: "(int \<times> real) list"

text \<open>\<^verbatim>\<open>__init__\<close>: the work queue is \<^verbatim>\<open>queue.Queue()\<close>, that is \<^verbatim>\<open>maxsize = 0\<close>.\<close>

definition ObstacleAlert_init :: "config \<Rightarrow> obstacle_alert" where
  "ObstacleAlert_init cfg =
     \<lparr>enabled = ALERT_ENABLED cfg, alert_queue = Queue 0, last_alert_time = Map.empty,
      debounce_time = ALERT_DEBOUNCE_TIME cfg, played = []\<rparr>"

text \<open>
  \<^verbatim>\<open>int(x)\<close> of a float truncates towards zero. The products \<^verbatim>\<open>frequency * 1.1\<close> and
  \<^verbatim>\<open>frequency * 0.9\<close> are taken exactly here; the double products truncate to the same
  integer for every frequency below \<open>10 ^ 14\<close> in absolute value.
\<close>

definition py_int :: "real \<Rightarrow> int" where
  "py_int x = (if 0 \<le> x then \<lfloor>x\<rfloor> else \<lceil>x\<rceil>)"

definition put_alert :: "obstacle_alert \<Rightarrow> alert_data \<Rightarrow> obstacle_alert" where
  "put_alert s a =
     (case put_nowait (alert_queue s) a of
        Inr q' \<Rightarrow> s\<lparr>alert_queue := q'\<rparr>
      | Inl _ \<Rightarrow> s)"

definition alert_obstacle ::
  "config \<Rightarrow> string \<Rightarrow> string \<Rightarrow> string \<Rightarrow> bool \<Rightarrow> obstacle_alert \<Rightarrow> obstacle_alert" where
  "alert_obstacle cfg proximity obstacle_type priority is_center s =
     (if \<not> enabled s then s
      else if proximity = ''far'' \<and> \<not> is_center then s
      else if proximity = ''medium'' \<and> \<not> is_center then s
      else
        let (frequency, duration) =
              (if proximity = ''close'' then
                 (ALERT_CLOSE_FREQUENCY cfg, ALERT_DURATION cfg * 1.5)
               else if proximity = ''medium'' then
                 (ALERT_MEDIUM_FREQUENCY cfg, ALERT_DURATION cfg)
               else
                 (ALERT_FAR_FREQUENCY cfg, ALERT_DURATION cfg * 0.5));
            frequency' =
              (if obstacle_type = ''person'' then py_int (of_int frequency * 1.1)
               else if obstacle_type \<in> set [''car'', ''bus'', ''truck'', ''motorcycle'', ''bicycle'']
               then py_int (of_int frequency * 0.9)
               else frequency)
        in put_alert s
             \<lparr>ad_type = ''obstacle'', ad_frequency = frequency', ad_duration = duration,
              ad_priority = priority, ad_proximity = Some proximity,
              ad_obstacle_type = Some obstacle_type, ad_noise_type = None,
              ad_intensity = None\<rparr>)"

definition alert_noise :: "config \<Rightarrow> string \<Rightarrow> real \<Rightarrow> obstacle_alert \<Rightarrow> obstacle_alert" where
  "alert_noise cfg noise_type intensity s =
     (if \<not> enabled s then s
      else
        let (frequency, duration, priority) =
              (if noise_type = ''siren'' then (1200, ALERT_DURATION cfg * 2, ''high'')
               else if noise_type = ''traffic'' then (400, ALERT_DURATION cfg, ''normal'')
               else if noise_type = ''voice'' then (500, ALERT_DURATION cfg * 0.8, ''low'')
               else (ALERT_MEDIUM_FREQUENCY cfg, ALERT_DURATION cfg, ''normal''))
        in put_alert s
             \<lparr>ad_type = ''noise'', ad_frequency = frequency, ad_duration = duration,
              ad_priority = priority, ad_proximity = None, ad_obstacle_type = None,
              ad_noise_type = Some noise_type, ad_intensity = Some intensity\<rparr>)"

text \<open>Python's \<^verbatim>\<open>str\<close> of an integer, for the f-string that builds the debounce key.\<close>

fun str_nat :: "nat \<Rightarrow> string" where
  "str_nat n =
     (if n < 10 then [char_of (48 + n)]
      else str_nat (n div 10) @ [char_of (48 + n mod 10)])"

declare str_nat.simps [simp del]

definition str_int :: "int \<Rightarrow> string" where
  "str_int i = (if i < 0 then CHR ''-'' # str_nat (nat (- i)) else str_nat (nat i))"

definition alert_key :: "alert_data \<Rightarrow> string" where
  "alert_key a = ad_type a @ ''_'' @ str_int (ad_frequency a)"

text \<open>
  \<^verbatim>\<open>_play_alert\<close>, run by the playback worker at wall-clock time \<open>current_time\<close>. A
  failure of the audio backend is caught and logged, after the timestamp is stored.
\<close>

definition play_alert :: "real \<Rightarrow> alert_data \<Rightarrow> obstacle_alert \<Rightarrow> obstacle_alert" where
  "play_alert current_time a s =
     (if \<not> enabled s then s
      else
        let recent =
              (case last_alert_time s (alert_key a) of
                 None \<Rightarrow> False
               | Some t \<Rightarrow> current_time - t < debounce_time s)
        in if recent then s
           else s\<lparr>last_alert_time := (last_alert_time s)(alert_key a \<mapsto> current_time),
                  played := played s @ [(ad_frequency a, ad_duration a)]\<rparr>)"

text \<open>
  One turn of \<^verbatim>\<open>_process_alerts\<close>: take the oldest message, if there is one, and play it.
\<close>

definition process_alerts :: "real \<Rightarrow> obstacle_alert \<Rightarrow> obstacle_alert" where
  "process_alerts current_time s =
     (case get_nowait (alert_queue s) of
        Inl _ \<Rightarrow> s
      | Inr (a, q') \<Rightarrow> play_alert current_time a (s\<lparr>alert_queue := q'\<rparr>))"


section \<open>Proximity classification (standalone variant, \<^verbatim>\<open>utils/helpers.py\<close>)\<close>

text \<open>
  \<^verbatim>\<open>calculate_proximity(relative_size, frame_width, frame_height)\<close>. The module imports
  nothing of \<^verbatim>\<open>config.py\<close>; the two frame arguments are not read. \<^verbatim>\<open>relative_size\<close> is a
  float in the source and a real here.
\<close>

definition calculate_proximity :: "real \<Rightarrow> int \<Rightarrow> int \<Rightarrow> string" where
  "calculate_proximity relative_size frame_width frame_height =
     (if relative_size > 0.08 then ''close''
      else if relative_size > 0.04 then ''medium''
      else ''far'')"


section \<open>The simple ambient noise detector (\<^verbatim>\<open>modules/audio_detector.py\<close>)\<close>

text \<open>
  The stream is opened with \<^verbatim>\<open>paInt16\<close> and the chunk is read with
  \<^verbatim>\<open>np.frombuffer(data, dtype=np.int16)\<close>: an array of 16-bit signed samples.
  \<^verbatim>\<open>audio_data**2\<close> on such an array is again an \<^verbatim>\<open>int16\<close> array: every square is reduced
  modulo \<open>2 ^ 16\<close> (two's complement), silently. \<^verbatim>\<open>np.mean\<close> then averages the wrapped
  squares in double precision; the mean of an empty array and the square root of a
  negative mean are NaN, here \<open>None\<close>. Every comparison with NaN is false.
\<close>

type_synonym int16 = "16 word"

definition np_square_int16 :: "int16 list \<Rightarrow> int16 list" where
  "np_square_int16 xs = map (\<lambda>x. x * x) xs"

definition np_mean_int16 :: "int16 list \<Rightarrow> real option" where
  "np_mean_int16 xs =
     (if xs = [] then None
      else Some (real_of_int (sum_list (map sint xs)) / real (length xs)))"

definition np_sqrt :: "real option \<Rightarrow> real option" where
  "np_sqrt v =
     (case v of
        None \<Rightarrow> None
      | Some x \<Rightarrow> if x < 0 then None else Some (sqrt x))"

record audio_detector =
  is_listening :: bool
  has_stream :: bool
  noise_threshold :: real

record noise_event =
  ne_has_noise :: bool
  ne_level :: string
  ne_intensity :: real
  ne_description :: string

text \<open>
  \<^verbatim>\<open>detect_noise\<close>. The chunk read from the stream is the input \<open>data\<close>; \<open>None\<close> stands for
  a read that raised, which the method catches and turns into no event.
\<close>

definition detect_noise :: "audio_detector \<Rightarrow> int16 list option \<Rightarrow> noise_event option" where
  "detect_noise d data =
     (if \<not> is_listening d \<or> \<not> has_stream d then None
      else
        case data of
          None \<Rightarrow> None
        | Some audio_data \<Rightarrow>
            (case np_sqrt (np_mean_int16 (np_square_int16 audio_data)) of
               None \<Rightarrow> None
             | Some rms \<Rightarrow>
                 let max_value = 32768;
                     normalized_rms = rms / max_value
                 in if normalized_rms > noise_threshold d then
                      let level =
                            (if normalized_rms > 0.7 then ''muy alto''
                             else if normalized_rms > 0.5 then ''alto''
                             else if normalized_rms > 0.3 then ''moderado''
                             else ''bajo'')
                      in Some \<lparr>ne_has_noise = True, ne_level = level,
                               ne_intensity = normalized_rms,
                               ne_description = ''Se detecta ruido '' @ level @ '' en el entorno''\<rparr>
                    else None))"

text \<open>\<^verbatim>\<open>AudioDetector()\<close> after a successful \<^verbatim>\<open>start_listening()\<close>, with \<^verbatim>\<open>NOISE_THRESHOLD\<close> 0.2.\<close>

definition listening_detector :: audio_detector where
  "listening_detector = \<lparr>is_listening = True, has_stream = True, noise_threshold = 0.2\<rparr>"


section \<open>The browser variant: one cycle of \<^verbatim>\<open>process_video_and_detection\<close> (\<^verbatim>\<open>app.py\<close>)\<close>

text \<open>
  The vision agent of the browser variant (\<^verbatim>\<open>agents/vision_agent.py\<close>) counts its calls and
  runs the model only on every \<^verbatim>\<open>YOLO_PROCESS_EVERY_N_FRAMES\<close>-th one (default 5), unless
  forced. \<open>seen\<close> is what inference and the relevance filter give for the frame (the empty
  list when inference raises). With a frame-skip setting of 0 the remainder raises
  \<^verbatim>\<open>ZeroDivisionError\<close>, after the counter has been advanced.
\<close>

datatype py_error = ZeroDivisionError

record vision_agent =
  va_model_loaded :: bool
  process_every_n_frames :: int
  frame_count :: int

definition VisionAgent_init :: "int \<Rightarrow> vision_agent" where
  "VisionAgent_init n = \<lparr>va_model_loaded = True, process_every_n_frames = n, frame_count = 0\<rparr>"

definition detect_objects ::
  "vision_agent \<Rightarrow> 'd list \<Rightarrow> bool \<Rightarrow> (py_error + 'd list) \<times> vision_agent" where
  "detect_objects va seen force_process =
     (if \<not> va_model_loaded va then (Inr [], va)
      else
        let va' = va\<lparr>frame_count := frame_count va + 1\<rparr>
        in if force_process then (Inr seen, va')
           else if process_every_n_frames va' = 0 then (Inl ZeroDivisionError, va')
           else if frame_count va' mod process_every_n_frames va' \<noteq> 0 then (Inr [], va')
           else (Inr seen, va'))"

text \<open>
  The part of \<^verbatim>\<open>st.session_state\<close> the cycle reads and writes, and two traces of what it
  did: \<open>passes\<close>, the times at which a detection pass ran (\<^verbatim>\<open>detect_objects\<close> was called),
  and \<open>spoken\<close>, the descriptions handed to the audio manager.
\<close>

record session_state =
  last_detection_time :: real
  last_description :: string
  ss_vision_agent :: vision_agent
  passes :: "real list"
  spoken :: "string list"

text \<open>
  What the world gives one cycle: whether the camera is open, whether a frame was read,
  the clock, what the detection model finds in the frame if it is run, the noise event
  (none when audio detection is off, absent or failed), and the text returned by
  \<^verbatim>\<open>generate_description\<close> if it is called (\<open>None\<close> when it raises).
\<close>

record ('d, 'n) cycle =
  cy_cap_opened :: bool
  cy_frame_read :: bool
  cy_time :: real
  cy_seen :: "'d list"
  cy_noise_info :: "'n option"
  cy_description :: "string option"

text \<open>
  Session initialisation creates the vision agent and sets the timestamp to 0 and the last
  description to the empty string; \<open>n\<close> is \<^verbatim>\<open>YOLO_PROCESS_EVERY_N_FRAMES\<close>.
\<close>

definition session_init :: "int \<Rightarrow> session_state" where
  "session_init n =
     \<lparr>last_detection_time = 0, last_description = [], ss_vision_agent = VisionAgent_init n,
      passes = [], spoken = []\<rparr>"

text \<open>
  The cycle calls \<^verbatim>\<open>detect_objects(frame)\<close> without forcing; an exception of the agent is
  caught and stands for no detections.
\<close>

definition process_video_and_detection :: "('d, 'n) cycle \<Rightarrow> session_state \<Rightarrow> session_state" where
  "process_video_and_detection c st =
     (if \<not> cy_cap_opened c then st
      else if \<not> cy_frame_read c then st
      else
        let current_time = cy_time c;
            time_since_last = current_time - last_detection_time st
        in if time_since_last \<ge> 3.0 then
             let (result, va') = detect_objects (ss_vision_agent st) (cy_seen c) False;
                 detections = (case result of Inl _ \<Rightarrow> [] | Inr ds \<Rightarrow> ds);
                 st1 = st\<lparr>ss_vision_agent := va', passes := passes st @ [current_time]\<rparr>
             in if detections \<noteq> [] \<or> cy_noise_info c \<noteq> None then
                  (case cy_description c of
                     None \<Rightarrow> st1
                   | Some description \<Rightarrow>
                       if description \<noteq> last_description st1 then
                         st1\<lparr>spoken := spoken st1 @ [description],
                             last_description := description,
                             last_detection_time := current_time\<rparr>
                       else st1)
                else st1\<lparr>last_detection_time := current_time\<rparr>
           else st)"


section \<open>The description cache (\<^verbatim>\<open>modules/database_manager.py\<close>)\<close>

text \<open>
  The table \<^verbatim>\<open>cache_descripciones\<close>: \<^verbatim>\<open>hash_objetos\<close> is UNIQUE, so the table is a map from
  the hash to the rest of the row. \<^verbatim>\<open>uso_count\<close> has DEFAULT 1, the two timestamps have
  DEFAULT CURRENT_TIMESTAMP; no statement of the repository stores NULL in any of them.
  The serial \<^verbatim>\<open>id\<close> is left out.
\<close>

record cache_row =
  descripcion :: string
  uso_count :: int
  created_at :: real
  last_used :: real

type_synonym cache_table = "string \<rightharpoonup> cache_row"

text \<open>
  Direct backend: one INSERT ... ON CONFLICT (hash_objetos) DO UPDATE statement, then
  commit. \<open>db_ok\<close> is false when the connection or the statement raises: the transaction
  is rolled back and the method returns \<^verbatim>\<open>False\<close>. \<open>now\<close> is CURRENT_TIMESTAMP.
\<close>

definition cache_description_postgres ::
  "bool \<Rightarrow> real \<Rightarrow> cache_table \<Rightarrow> string \<Rightarrow> string \<Rightarrow> bool \<times> cache_table" where
  "cache_description_postgres db_ok now tbl hash_objetos texto =
     (if \<not> db_ok then (False, tbl)
      else
        (True,
         case tbl hash_objetos of
           None \<Rightarrow>
             tbl(hash_objetos \<mapsto>
               \<lparr>descripcion = texto, uso_count = 1, created_at = now, last_used = now\<rparr>)
         | Some r \<Rightarrow>
             tbl(hash_objetos \<mapsto>
               r\<lparr>descripcion := texto, uso_count := uso_count r + 1, last_used := now\<rparr>)))"

text \<open>
  Managed backend: a select of \<^verbatim>\<open>uso_count\<close> by hash, then either an update of
  \<^verbatim>\<open>descripcion\<close> and \<^verbatim>\<open>uso_count\<close> or an insert with \<^verbatim>\<open>uso_count\<close> 1. No other writer
  runs between the two requests. \<open>db_ok\<close> is false when a request raises.
\<close>

definition cache_description_supabase ::
  "bool \<Rightarrow> real \<Rightarrow> cache_table \<Rightarrow> string \<Rightarrow> string \<Rightarrow> bool \<times> cache_table" where
  "cache_description_supabase db_ok now tbl hash_objetos texto =
     (if \<not> db_ok then (False, tbl)
      else
        let existing = tbl hash_objetos
        in (True,
            case existing of
              Some r \<Rightarrow>
                let new_count = uso_count r + 1
                in tbl(hash_objetos \<mapsto> r\<lparr>descripcion := texto, uso_count := new_count\<rparr>)
            | None \<Rightarrow>
                tbl(hash_objetos \<mapsto>
                  \<lparr>descripcion = texto, uso_count = 1, created_at = now, last_used = now\<rparr>)))"

text \<open>\<^verbatim>\<open>cache_description\<close> dispatches on the backend in use.\<close>

definition cache_description ::
  "bool \<Rightarrow> bool \<Rightarrow> real \<Rightarrow> cache_table \<Rightarrow> string \<Rightarrow> string \<Rightarrow> bool \<times> cache_table" where
  "cache_description use_supabase db_ok now tbl hash_objetos texto =
     (if use_supabase then cache_description_supabase db_ok now tbl hash_objetos texto
      else cache_description_postgres db_ok now tbl hash_objetos texto)"


section \<open>The language description agent: the cache key (\<^verbatim>\<open>agents/language_agent.py\<close>)\<close>

text \<open>
  A detection is a dictionary; the cache key reads \<^verbatim>\<open>det.get('name', '')\<close> and
  \<^verbatim>\<open>det.get('bbox', {}).get('x_center', 0)\<close>, likewise for \<^verbatim>\<open>y_center\<close>: a missing key is
  \<open>None\<close> here. Coordinates are floats in the source and reals here.
\<close>

record bbox =
  bb_x_center :: "real option"
  bb_y_center :: "real option"

record detection =
  det_name :: "string option"
  det_bbox :: "bbox option"

text \<open>Python 3's \<^verbatim>\<open>round(x)\<close> of a float: to the nearest integer, a tie to the even one.\<close>

definition py_round :: "real \<Rightarrow> int" where
  "py_round x =
     (let f = \<lfloor>x\<rfloor>; r = x - of_int f
      in if r < 1 / 2 then f
         else if r > 1 / 2 then f + 1
         else if even f then f else f + 1)"

record normalized_detection =
  nd_name :: string
  nd_x_center :: int
  nd_y_center :: int

definition normalize_detection :: "detection \<Rightarrow> normalized_detection" where
  "normalize_detection det =
     \<lparr>nd_name = (case det_name det of None \<Rightarrow> [] | Some n \<Rightarrow> n),
      nd_x_center =
        py_round ((case det_bbox det of
                     None \<Rightarrow> 0
                   | Some b \<Rightarrow> (case bb_x_center b of None \<Rightarrow> 0 | Some x \<Rightarrow> x)) / 100),
      nd_y_center =
        py_round ((case det_bbox det of
                     None \<Rightarrow> 0
                   | Some b \<Rightarrow> (case bb_y_center b of None \<Rightarrow> 0 | Some y \<Rightarrow> y)) / 100)\<rparr>"

text \<open>
  The key of \<^verbatim>\<open>normalized.sort\<close>: the tuple (name, x, y), compared as Python compares
  tuples, component by component, names by code point. \<^verbatim>\<open>list.sort\<close> is stable, as
  \<^const>\<open>sort_key\<close> is.
\<close>

definition sort_tuple :: "normalized_detection \<Rightarrow> string \<times> int \<times> int" where
  "sort_tuple x = (nd_name x, nd_x_center x, nd_y_center x)"

text \<open>
  \<^verbatim>\<open>_create_hash_from_detections\<close>. The two library functions are parameters:
  \<open>json_dumps\<close> is \<^verbatim>\<open>json.dumps(_, sort_keys=True)\<close> on the list of normalized dictionaries,
  \<open>md5_hexdigest\<close> is \<^verbatim>\<open>hashlib.md5(_.encode()).hexdigest()\<close>.
\<close>

definition create_hash_from_detections ::
  "(normalized_detection list \<Rightarrow> string) \<Rightarrow> (string \<Rightarrow> string) \<Rightarrow> detection list \<Rightarrow> string" where
  "create_hash_from_detections json_dumps md5_hexdigest detections =
     (let normalized = map normalize_detection detections;
          normalized' = sort_key sort_tuple normalized;
          detections_str = json_dumps normalized'
      in md5_hexdigest detections_str)"


section \<open>The language description agent: cleaning the model's text\<close>

text \<open>
  A Python \<^verbatim>\<open>str\<close> is a sequence of Unicode code points, and \<^verbatim>\<open>len\<close> counts them: a
  text is a list of code points here. 32 is the space, 46 the period, 33 the exclamation
  mark and 63 the question mark. \<open>py_str\<close> embeds an ASCII literal.
\<close>

type_synonym pystr = "nat list"

definition py_str :: "string \<Rightarrow> pystr" where
  "py_str s = map of_char s"

text \<open>The code points that \<^verbatim>\<open>str.split()\<close> and \<^verbatim>\<open>str.strip()\<close> take for whitespace.\<close>

definition py_isspace :: "nat \<Rightarrow> bool" where
  "py_isspace c =
     (c \<in> set [9, 10, 11, 12, 13, 28, 29, 30, 31, 32, 133, 160, 5760,
               8192, 8193, 8194, 8195, 8196, 8197, 8198, 8199, 8200, 8201, 8202,
               8232, 8233, 8239, 8287, 12288])"

text \<open>
  \<^verbatim>\<open>s.split()\<close>: the maximal runs of non-whitespace, in order; \<open>w\<close> is the word being read.
\<close>

fun split_ws :: "pystr \<Rightarrow> pystr \<Rightarrow> pystr list" where
  "split_ws [] w = (if w = [] then [] else [w])"
| "split_ws (c # cs) w =
     (if py_isspace c then (if w = [] then split_ws cs [] else w # split_ws cs [])
      else split_ws cs (w @ [c]))"

definition py_split :: "pystr \<Rightarrow> pystr list" where
  "py_split s = split_ws s []"

text \<open>\<^verbatim>\<open>sep.join(words)\<close>.\<close>

fun py_join :: "pystr \<Rightarrow> pystr list \<Rightarrow> pystr" where
  "py_join sep [] = []"
| "py_join sep [w] = w"
| "py_join sep (w # v # ws) = w @ sep @ py_join sep (v # ws)"

text \<open>\<^verbatim>\<open>s.rfind(c)\<close> for a single character: the highest index of \<open>c\<close>, or -1.\<close>

fun py_rfind :: "pystr \<Rightarrow> nat \<Rightarrow> int" where
  "py_rfind [] c = - 1"
| "py_rfind (x # xs) c =
     (let r = py_rfind xs c
      in if 0 \<le> r then r + 1 else if x = c then 0 else - 1)"

text \<open>The slice \<^verbatim>\<open>s[:n]\<close>; a negative \<open>n\<close> counts from the end.\<close>

definition py_slice_to :: "pystr \<Rightarrow> int \<Rightarrow> pystr" where
  "py_slice_to s n = (if 0 \<le> n then take (nat n) s else take (nat (int (length s) + n)) s)"

text \<open>\<^verbatim>\<open>s.rsplit(sep, 1)[0]\<close>: what stands before the last separator, or all of \<open>s\<close>.\<close>

definition py_rsplit1_head :: "pystr \<Rightarrow> nat \<Rightarrow> pystr" where
  "py_rsplit1_head s sep = (let i = py_rfind s sep in if i < 0 then s else take (nat i) s)"

text \<open>\<^verbatim>\<open>s.endswith((c1, c2, ...))\<close> for single characters.\<close>

definition py_endswith_any :: "pystr \<Rightarrow> nat list \<Rightarrow> bool" where
  "py_endswith_any s cs = (s \<noteq> [] \<and> last s \<in> set cs)"

definition py_strip :: "pystr \<Rightarrow> pystr" where
  "py_strip s = rev (dropWhile py_isspace (rev (dropWhile py_isspace s)))"

text \<open>
  The comparison \<^verbatim>\<open>last_punctuation > MAX_DESCRIPTION_LENGTH * 0.7\<close> is between an integer
  and a double: the integer limit is converted to a double and multiplied by the double
  nearest to 0.7, which is \<open>6305039478318694 / 2 ^ 53\<close>, and the product is rounded to the
  nearest double, a tie to the even one. \<open>round_double\<close> is that rounding for every real
  \<open>x\<close> that is 0 or of magnitude from \<open>1 / 2\<close> up (and below the overflow threshold), which
  covers every product of an integer with 0.7: \<open>bit_length\<close> of the integer part gives the
  binary exponent, and the unit in the last place is \<open>2\<close> to that exponent minus 52.
  Python compares an integer with a double exactly.
\<close>

fun bit_length :: "nat \<Rightarrow> nat" where
  "bit_length n = (if n = 0 then 0 else Suc (bit_length (n div 2)))"

declare bit_length.simps [simp del]

definition round_double :: "real \<Rightarrow> real" where
  "round_double x =
     (let e = int (bit_length (nat \<lfloor>\<bar>x\<bar>\<rfloor>)) - 1;
          ulp = (if 52 \<le> e then 2 ^ nat (e - 52) else 1 / 2 ^ nat (52 - e))
      in sgn x * of_int (py_round (\<bar>x\<bar> / ulp)) * ulp)"

definition double_0_7 :: real where
  "double_0_7 = 6305039478318694 / 2 ^ 53"

definition py_int_times_float :: "int \<Rightarrow> real \<Rightarrow> real" where
  "py_int_times_float i x = round_double (round_double (of_int i) * x)"

text \<open>
  \<^verbatim>\<open>_clean_description\<close>, with \<^verbatim>\<open>MAX_DESCRIPTION_LENGTH\<close> as a parameter (default 500).
\<close>

definition clean_description :: "int \<Rightarrow> pystr \<Rightarrow> pystr" where
  "clean_description MAX_DESCRIPTION_LENGTH description =
     (let description1 = py_join [32] (py_split description);
          description2 =
            (if int (length description1) > MAX_DESCRIPTION_LENGTH then
               let truncated = py_slice_to description1 MAX_DESCRIPTION_LENGTH;
                   last_period = py_rfind truncated 46;
                   last_exclamation = py_rfind truncated 33;
                   last_question = py_rfind truncated 63;
                   last_punctuation = max last_period (max last_exclamation last_question)
               in if real_of_int last_punctuation
                       > py_int_times_float MAX_DESCRIPTION_LENGTH double_0_7
                  then py_slice_to description1 (last_punctuation + 1)
                  else py_rsplit1_head truncated 32 @ [46]
             else description1);
          description3 =
            (if description2 \<noteq> [] \<and> \<not> py_endswith_any description2 [46, 33, 63]
             then description2 @ [46]
             else description2)
      in py_strip description3)"


section \<open>Frame queue: what the capture loop keeps\<close>

text \<open>
  C1. Three frames pushed into the empty capacity-2 frame queue with no consumption: the
  queue then holds the first two frames. The third frame finds the queue full and is not
  admitted; nothing is evicted.
\<close>

theorem capture_burst_keeps_oldest:
  "video_capture_thread frame_queue_init [f1, f2, f3] = Inr \<lparr>maxsize = 2, items = [f1, f2]\<rparr>"
  by (simp add: frame_queue_init_def Queue_def offer_frame_def full_def qsize_def put_nowait_def)


section \<open>Alert system: the work queue\<close>

lemma alert_obstacle_close_step:
  "enabled s \<Longrightarrow> maxsize (alert_queue s) = 0 \<Longrightarrow>
   enabled (alert_obstacle cfg ''close'' ty pr c s) \<and>
   maxsize (alert_queue (alert_obstacle cfg ''close'' ty pr c s)) = 0 \<and>
   qsize (alert_queue (alert_obstacle cfg ''close'' ty pr c s)) = Suc (qsize (alert_queue s))"
  by (simp add: alert_obstacle_def put_alert_def put_nowait_def full_def qsize_def Let_def)

lemma alert_noise_step:
  "enabled s \<Longrightarrow> maxsize (alert_queue s) = 0 \<Longrightarrow>
   enabled (alert_noise cfg nt i s) \<and>
   maxsize (alert_queue (alert_noise cfg nt i s)) = 0 \<and>
   qsize (alert_queue (alert_noise cfg nt i s)) = Suc (qsize (alert_queue s))"
  by (simp add: alert_noise_def put_alert_def put_nowait_def full_def qsize_def Let_def)

lemma alert_obstacle_close_funpow:
  "enabled s \<Longrightarrow> maxsize (alert_queue s) = 0 \<Longrightarrow>
   enabled ((alert_obstacle cfg ''close'' ty pr c ^^ n) s) \<and>
   maxsize (alert_queue ((alert_obstacle cfg ''close'' ty pr c ^^ n) s)) = 0 \<and>
   qsize (alert_queue ((alert_obstacle cfg ''close'' ty pr c ^^ n) s)) = qsize (alert_queue s) + n"
proof (induction n)
  case 0
  then show ?case by simp
next
  case (Suc n)
  then show ?case using alert_obstacle_close_step [of "(alert_obstacle cfg ''close'' ty pr c ^^ n) s" cfg ty pr c]
    by simp
qed

lemma alert_noise_funpow:
  "enabled s \<Longrightarrow> maxsize (alert_queue s) = 0 \<Longrightarrow>
   enabled ((alert_noise cfg nt i ^^ n) s) \<and>
   maxsize (alert_queue ((alert_noise cfg nt i ^^ n) s)) = 0 \<and>
   qsize (alert_queue ((alert_noise cfg nt i ^^ n) s)) = qsize (alert_queue s) + n"
proof (induction n)
  case 0
  then show ?case by simp
next
  case (Suc n)
  then show ?case using alert_noise_step [of "(alert_noise cfg nt i ^^ n) s" cfg nt i]
    by simp
qed

text \<open>
  C10. The work queue of the alert system is created without a bound, so no capacity
  limits it: with alerts enabled, \<open>n\<close> calls of \<^verbatim>\<open>alert_obstacle\<close> for a close object,
  or \<open>n\<close> calls of \<^verbatim>\<open>alert_noise\<close>, with the playback worker taking nothing, leave \<open>n\<close>
  messages queued, for every \<open>n\<close>. No message is ever dropped by the producer.
\<close>

theorem alert_queue_grows_without_bound:
  assumes "ALERT_ENABLED cfg"
  shows "qsize (alert_queue ((alert_obstacle cfg ''close'' ty pr c ^^ n) (ObstacleAlert_init cfg))) = n
       \<and> qsize (alert_queue ((alert_noise cfg nt i ^^ n) (ObstacleAlert_init cfg))) = n"
proof -
  have e: "enabled (ObstacleAlert_init cfg)"
    using assms by (simp add: ObstacleAlert_init_def)
  have m: "maxsize (alert_queue (ObstacleAlert_init cfg)) = 0"
    by (simp add: ObstacleAlert_init_def Queue_def)
  have z: "qsize (alert_queue (ObstacleAlert_init cfg)) = 0"
    by (simp add: ObstacleAlert_init_def Queue_def qsize_def)
  show ?thesis
    using alert_obstacle_close_funpow [where cfg = cfg and ty = ty and pr = pr and c = c and n = n, OF e m]
      alert_noise_funpow [where cfg = cfg and nt = nt and i = i and n = n, OF e m] z
    by simp
qed

theorem alert_queue_grows_without_bound_witness:
  "ALERT_ENABLED default_config
   \<and> qsize (alert_queue ((alert_obstacle default_config ''close'' ''person'' ''high'' True ^^ 1000)
        (ObstacleAlert_init default_config))) = 1000
   \<and> qsize (alert_queue ((alert_noise default_config ''siren'' (9 / 10) ^^ 1000)
        (ObstacleAlert_init default_config))) = 1000"
proof -
  have h: "ALERT_ENABLED default_config" by (simp add: default_config_def)
  show ?thesis
    using h alert_queue_grows_without_bound [where ty = "''person''" and pr = "''high''" and c = True
        and n = 1000 and nt = "''siren''" and i = "9 / 10", OF h]
    by simp
qed


section \<open>Alert system: the message for an obstacle\<close>

text \<open>
  C3, as amended. With alerts enabled and room in the queue: a far or medium object outside
  the center zone produces no message; otherwise exactly one message is enqueued, of type
  obstacle, whose base frequency and duration follow the proximity (close: the configured
  close frequency and 1.5 times the base duration; medium: the medium frequency and the
  base duration; far, in the center: the far frequency and half the base duration), and
  whose frequency is the base frequency times 1.1 truncated to an integer for a person,
  times 0.9 truncated to an integer for a car, bus, truck, motorcycle or bicycle, and the
  base frequency itself otherwise.
\<close>

theorem alert_obstacle_message:
  assumes "enabled s" and "\<not> full (alert_queue s)"
  shows
    "if (proximity = ''far'' \<or> proximity = ''medium'') \<and> \<not> is_center
     then alert_obstacle cfg proximity obstacle_type priority is_center s = s
     else (\<exists>m base.
        alert_obstacle cfg proximity obstacle_type priority is_center s =
          s\<lparr>alert_queue := (alert_queue s)\<lparr>items := items (alert_queue s) @ [m]\<rparr>\<rparr>
      \<and> ad_type m = ''obstacle''
      \<and> (proximity = ''close'' \<longrightarrow>
            base = ALERT_CLOSE_FREQUENCY cfg \<and> ad_duration m = ALERT_DURATION cfg * 1.5)
      \<and> (proximity = ''medium'' \<longrightarrow>
            base = ALERT_MEDIUM_FREQUENCY cfg \<and> ad_duration m = ALERT_DURATION cfg)
      \<and> (proximity = ''far'' \<longrightarrow>
            base = ALERT_FAR_FREQUENCY cfg \<and> ad_duration m = ALERT_DURATION cfg * 0.5)
      \<and> (obstacle_type = ''person'' \<longrightarrow> ad_frequency m = py_int (of_int base * 1.1))
      \<and> (obstacle_type \<in> {''car'', ''bus'', ''truck'', ''motorcycle'', ''bicycle''} \<longrightarrow>
            ad_frequency m = py_int (of_int base * 0.9))
      \<and> (obstacle_type \<notin> {''person'', ''car'', ''bus'', ''truck'', ''motorcycle'', ''bicycle''} \<longrightarrow>
            ad_frequency m = base))"
proof (cases "(proximity = ''far'' \<or> proximity = ''medium'') \<and> \<not> is_center")
  case True
  then show ?thesis using assms by (auto simp: alert_obstacle_def)
next
  case False
  then have nf: "\<not> (proximity = ''far'' \<and> \<not> is_center)"
    and nm: "\<not> (proximity = ''medium'' \<and> \<not> is_center)"
    by blast+
  define base where "base =
    (if proximity = ''close'' then ALERT_CLOSE_FREQUENCY cfg
     else if proximity = ''medium'' then ALERT_MEDIUM_FREQUENCY cfg
     else ALERT_FAR_FREQUENCY cfg)"
  define m where "m =
    \<lparr>ad_type = ''obstacle'',
     ad_frequency =
       (if obstacle_type = ''person'' then py_int (of_int base * 1.1)
        else if obstacle_type \<in> set [''car'', ''bus'', ''truck'', ''motorcycle'', ''bicycle'']
        then py_int (of_int base * 0.9)
        else base),
     ad_duration =
       (if proximity = ''close'' then ALERT_DURATION cfg * 1.5
        else if proximity = ''medium'' then ALERT_DURATION cfg
        else ALERT_DURATION cfg * 0.5),
     ad_priority = priority, ad_proximity = Some proximity,
     ad_obstacle_type = Some obstacle_type, ad_noise_type = None,
     ad_intensity = None\<rparr>"
  have eq: "alert_obstacle cfg proximity obstacle_type priority is_center s =
      s\<lparr>alert_queue := (alert_queue s)\<lparr>items := items (alert_queue s) @ [m]\<rparr>\<rparr>"
    using assms nf nm
    by (simp add: alert_obstacle_def put_alert_def put_nowait_def Let_def m_def base_def)
  have ty: "ad_type m = ''obstacle''"
    by (simp add: m_def)
  have c: "proximity = ''close'' \<longrightarrow>
      base = ALERT_CLOSE_FREQUENCY cfg \<and> ad_duration m = ALERT_DURATION cfg * 1.5"
    by (simp add: m_def base_def)
  have md: "proximity = ''medium'' \<longrightarrow>
      base = ALERT_MEDIUM_FREQUENCY cfg \<and> ad_duration m = ALERT_DURATION cfg"
    by (simp add: m_def base_def)
  have f: "proximity = ''far'' \<longrightarrow>
      base = ALERT_FAR_FREQUENCY cfg \<and> ad_duration m = ALERT_DURATION cfg * 0.5"
    by (simp add: m_def base_def)
  have p: "obstacle_type = ''person'' \<longrightarrow> ad_frequency m = py_int (of_int base * 1.1)"
    by (simp add: m_def)
  have v: "obstacle_type \<in> {''car'', ''bus'', ''truck'', ''motorcycle'', ''bicycle''} \<longrightarrow>
      ad_frequency m = py_int (of_int base * 0.9)"
    by (auto simp: m_def)
  have o: "obstacle_type \<notin> {''person'', ''car'', ''bus'', ''truck'', ''motorcycle'', ''bicycle''} \<longrightarrow>
      ad_frequency m = base"
    by (simp add: m_def)
  show ?thesis
    unfolding if_not_P [OF False]
    by (intro exI [of _ m] exI [of _ base] conjI; fact)
qed

theorem alert_obstacle_message_witness:
  "enabled (ObstacleAlert_init default_config)
   \<and> \<not> full (alert_queue (ObstacleAlert_init default_config))
   \<and> items (alert_queue (alert_obstacle default_config ''far'' ''car'' ''normal'' True
          (ObstacleAlert_init default_config))) =
       [\<lparr>ad_type = ''obstacle'', ad_frequency = 270, ad_duration = 1 / 20,
         ad_priority = ''normal'', ad_proximity = Some ''far'', ad_obstacle_type = Some ''car'',
         ad_noise_type = None, ad_intensity = None\<rparr>]"
proof -
  have e: "enabled (ObstacleAlert_init default_config)"
    by (simp add: ObstacleAlert_init_def default_config_def)
  have f: "\<not> full (alert_queue (ObstacleAlert_init default_config))"
    by (simp add: ObstacleAlert_init_def full_def Queue_def)
  show ?thesis
    using e f alert_obstacle_message [OF e f, where cfg = default_config and proximity = "''far''"
        and obstacle_type = "''car''" and priority = "''normal''" and is_center = True]
    by (simp add: alert_obstacle_def put_alert_def put_nowait_def Let_def ObstacleAlert_init_def default_config_def Queue_def py_int_def)
qed

text \<open>
  The frequency of the message is an integer: with a configured close frequency of 905 Hz
  the message for a person carries 995 Hz, not 905 times 1.1.
\<close>

theorem frequency_scaling_counterexample:
  "real_of_int (ad_frequency (last (items (alert_queue
     (alert_obstacle (default_config\<lparr>ALERT_CLOSE_FREQUENCY := 905\<rparr>) ''close'' ''person'' ''high'' True
        (ObstacleAlert_init default_config)))))) \<noteq> 905 * 1.1"
  by (simp add: alert_obstacle_def put_alert_def put_nowait_def Let_def ObstacleAlert_init_def full_def qsize_def
        default_config_def Queue_def py_int_def)


section \<open>Alert system: the debounce\<close>

text \<open>
  C2, as amended. Two alert messages with the same type and frequency are both put on
  the (unbounded) playback queue. The debounce is the playback worker's: if the first
  message sounded when the worker handled it at time \<open>t1\<close>, the second, handled at \<open>t2\<close>,
  is discarded without a tone when \<open>t2 - t1\<close> is less than the debounce interval, and
  sounds too when at least the debounce interval has passed.
\<close>

theorem debounce_at_playback:
  assumes fired: "play_alert t1 a1 s \<noteq> s"
    and same: "ad_type a2 = ad_type a1" "ad_frequency a2 = ad_frequency a1"
    and room: "maxsize (alert_queue s) = 0"
  shows "items (alert_queue (put_alert (put_alert s a1) a2)) = items (alert_queue s) @ [a1, a2]
       \<and> played (play_alert t2 a2 (play_alert t1 a1 s)) =
           (if t2 - t1 < debounce_time s
            then played s @ [(ad_frequency a1, ad_duration a1)]
            else played s @ [(ad_frequency a1, ad_duration a1), (ad_frequency a2, ad_duration a2)])"
proof -
  have key: "alert_key a2 = alert_key a1"
    using same by (simp add: alert_key_def)
  have en: "enabled s"
    using fired by (cases "enabled s") (simp_all add: play_alert_def)
  have s1: "play_alert t1 a1 s =
      s\<lparr>last_alert_time := (last_alert_time s)(alert_key a1 \<mapsto> t1),
        played := played s @ [(ad_frequency a1, ad_duration a1)]\<rparr>"
  proof (cases "case last_alert_time s (alert_key a1) of None \<Rightarrow> False
                | Some t \<Rightarrow> t1 - t < debounce_time s")
    case True
    then have "play_alert t1 a1 s = s"
      by (simp add: play_alert_def)
    with fired show ?thesis by simp
  next
    case False
    with en show ?thesis
      by (simp add: play_alert_def)
  qed
  have q: "items (alert_queue (put_alert (put_alert s a1) a2)) = items (alert_queue s) @ [a1, a2]"
    using room by (simp add: put_alert_def put_nowait_def full_def)
  have p: "played (play_alert t2 a2 (play_alert t1 a1 s)) =
           (if t2 - t1 < debounce_time s
            then played s @ [(ad_frequency a1, ad_duration a1)]
            else played s @ [(ad_frequency a1, ad_duration a1), (ad_frequency a2, ad_duration a2)])"
    unfolding s1 using en by (simp add: play_alert_def key)
  show ?thesis using q p by blast
qed

theorem debounce_at_playback_witness:
  "(let a = \<lparr>ad_type = ''obstacle'', ad_frequency = 990, ad_duration = 3 / 20,
       ad_priority = ''high'', ad_proximity = Some ''close'', ad_obstacle_type = Some ''person'',
       ad_noise_type = None, ad_intensity = None\<rparr>;
        s = ObstacleAlert_init default_config
    in play_alert 100 a s \<noteq> s
     \<and> maxsize (alert_queue s) = 0
     \<and> played (play_alert (100 + 1 / 10) a (play_alert 100 a s)) = [(990, 3 / 20)]
     \<and> played (play_alert (100 + 4 / 10) a (play_alert 100 a s)) = [(990, 3 / 20), (990, 3 / 20)])"
proof -
  define a where "a = \<lparr>ad_type = ''obstacle'', ad_frequency = 990, ad_duration = 3 / 20,
       ad_priority = ''high'', ad_proximity = Some ''close'', ad_obstacle_type = Some ''person'',
       ad_noise_type = None, ad_intensity = None\<rparr>"
  let ?s = "ObstacleAlert_init default_config"
  have f: "play_alert 100 a ?s \<noteq> ?s"
  proof
    assume "play_alert 100 a ?s = ?s"
    then have "played (play_alert 100 a ?s) = played ?s" by simp
    then show False
      by (simp add: play_alert_def ObstacleAlert_init_def default_config_def)
  qed
  have r: "maxsize (alert_queue ?s) = 0"
    by (simp add: ObstacleAlert_init_def Queue_def)
  have d: "debounce_time ?s = 3 / 10"
    by (simp add: ObstacleAlert_init_def default_config_def)
  have pl: "played ?s = []"
    by (simp add: ObstacleAlert_init_def)
  have fd: "ad_frequency a = 990" "ad_duration a = 3 / 20"
    by (simp_all add: a_def)
  have "play_alert 100 a ?s \<noteq> ?s
     \<and> maxsize (alert_queue ?s) = 0
     \<and> played (play_alert (100 + 1 / 10) a (play_alert 100 a ?s)) = [(990, 3 / 20)]
     \<and> played (play_alert (100 + 4 / 10) a (play_alert 100 a ?s)) = [(990, 3 / 20), (990, 3 / 20)]"
    using f r
      debounce_at_playback [OF f refl refl r, of "100 + 1 / 10"]
      debounce_at_playback [OF f refl refl r, of "100 + 4 / 10"]
    by (simp add: d pl fd)
  then show ?thesis
    by (simp add: a_def Let_def)
qed

text \<open>
  Two alerts for the same close person, issued one after the other: \<^verbatim>\<open>alert_obstacle\<close>
  reads no clock and consults no timestamp, and the second message stands in the
  playback queue behind the first.
\<close>

theorem second_alert_is_enqueued:
  "qsize (alert_queue
     (alert_obstacle default_config ''close'' ''person'' ''high'' True
       (alert_obstacle default_config ''close'' ''person'' ''high'' True
         (ObstacleAlert_init default_config)))) = 2"
  by (simp add: alert_obstacle_def put_alert_def put_nowait_def Let_def ObstacleAlert_init_def
        full_def qsize_def default_config_def Queue_def py_int_def)


section \<open>Proximity classification: the cutoffs\<close>

text \<open>
  C4. For every relative size the classifier answers close exactly above 0.08, medium
  exactly above 0.04 and up to 0.08, and far otherwise; so 0.08 itself is medium and 0.04
  itself is far, and 0.09, 0.05, 0.02 are close, medium, far. The answer is the same for
  every frame size, and no configured distance enters it.
\<close>

theorem calculate_proximity_cutoffs:
  "(calculate_proximity r w h = ''close'') = (r > 0.08)
   \<and> (calculate_proximity r w h = ''medium'') = (0.04 < r \<and> r \<le> 0.08)
   \<and> (calculate_proximity r w h = ''far'') = (r \<le> 0.04)
   \<and> calculate_proximity 0.08 w h = ''medium''
   \<and> calculate_proximity 0.04 w h = ''far''
   \<and> calculate_proximity 0.09 w h = ''close''
   \<and> calculate_proximity 0.05 w h = ''medium''
   \<and> calculate_proximity 0.02 w h = ''far''"
  by (simp add: calculate_proximity_def)


section \<open>Noise detector: the squares wrap\<close>

lemma sint16_le: "sint (x :: int16) \<le> 32767"
  using sint_lt [of x] by simp

lemma sum_list_sint_le: "sum_list (map sint (xs :: int16 list)) \<le> 32767 * int (length xs)"
proof (induction xs)
  case Nil
  then show ?case by simp
next
  case (Cons x xs)
  then show ?case using sint16_le [of x] by (simp add: algebra_simps)
qed

lemma np_mean_int16_le:
  assumes "np_mean_int16 xs = Some m"
  shows "m \<le> 32767"
proof -
  have ne: "xs \<noteq> []" using assms by (auto simp: np_mean_int16_def split: if_splits)
  then have pos: "0 < real (length xs)" by simp
  have "real_of_int (sum_list (map sint xs)) \<le> 32767 * real (length xs)"
    using sum_list_sint_le [of xs] by (metis of_int_le_iff of_int_mult of_int_numeral of_int_of_nat_eq)
  then have "real_of_int (sum_list (map sint xs)) / real (length xs) \<le> 32767"
    using pos by (simp add: pos_divide_le_eq)
  then show ?thesis using assms ne by (simp add: np_mean_int16_def)
qed

text \<open>
  C5. The mean of 16-bit values is at most 32767, so the value the detector calls RMS is
  at most the square root of 32767, below 182, and the normalized value is below 0.0056:
  with any threshold from 0.01 up, and so with the configured 0.2, the detector reports
  no noise event for any chunk whatever.
\<close>

theorem detect_noise_never_fires:
  assumes "1 / 100 \<le> noise_threshold d"
  shows "detect_noise d data = None"
proof (cases data)
  case None
  then show ?thesis by (simp add: detect_noise_def)
next
  case (Some audio_data)
  show ?thesis
  proof (cases "np_sqrt (np_mean_int16 (np_square_int16 audio_data))")
    case None
    then show ?thesis using Some by (simp add: detect_noise_def)
  next
    case rms: (Some rms)
    then obtain m where m: "np_mean_int16 (np_square_int16 audio_data) = Some m" "0 \<le> m" "rms = sqrt m"
      by (auto simp: np_sqrt_def split: option.splits if_splits)
    have "m \<le> 32767" using np_mean_int16_le [OF m(1)] .
    then have "m \<le> 182\<^sup>2" by simp
    then have "sqrt m \<le> 182" using m(2) by (simp add: real_le_lsqrt)
    then have "\<not> rms / 32768 > noise_threshold d"
      using assms m(3) by simp
    then show ?thesis using Some rms
      by (simp add: detect_noise_def Let_def)
  qed
qed

text \<open>
  A chunk of 1024 samples of value 16384, half of full scale: the RMS of the samples
  normalized to [-1, 1] is 0.5, above the threshold 0.2, so a noise event of level
  moderado and intensity 0.5 is due. In the code every square is \<open>2 ^ 28\<close>, which is 0 in
  16 bits: the mean is 0 and no event is reported.
\<close>

theorem loud_chunk_detects_nothing:
  "1 / 100 \<le> noise_threshold listening_detector
   \<and> detect_noise listening_detector (Some (replicate 1024 16384)) = None
   \<and> np_square_int16 (replicate 1024 16384) = replicate 1024 0
   \<and> sqrt ((\<Sum>x\<leftarrow>replicate 1024 (16384 :: int16). (real_of_int (sint x) / 32768)\<^sup>2) / 1024) = 1 / 2"
proof -
  have t: "1 / 100 \<le> noise_threshold listening_detector"
    by (simp add: listening_detector_def)
  have sq: "np_square_int16 (replicate 1024 16384) = replicate 1024 0"
    by (simp add: np_square_int16_def)
  have "(\<Sum>x\<leftarrow>replicate 1024 (16384 :: int16). (real_of_int (sint x) / 32768)\<^sup>2) / 1024 = (1 / 2)\<^sup>2"
    by (simp add: sum_list_replicate power2_eq_square)
  then have b: "sqrt ((\<Sum>x\<leftarrow>replicate 1024 (16384 :: int16). (real_of_int (sint x) / 32768)\<^sup>2) / 1024) = 1 / 2"
    by simp
  show ?thesis
    using t sq b detect_noise_never_fires [OF t, of "Some (replicate 1024 16384)"] by blast
qed


section \<open>Browser variant: the cadence of detection passes\<close>

text \<open>
  C9. A cycle whose detection pass runs the model (the agent's call counter reaches a
  multiple of the frame-skip setting), finds something, and gets the description that was
  spoken last, leaves the last-detection timestamp as it was: the pass of that cycle ran,
  and the pass of the next cycle runs too, however soon it comes.
\<close>

theorem detection_repeats_when_description_repeats:
  assumes "cy_cap_opened c" and "cy_frame_read c" and "cy_cap_opened c'" and "cy_frame_read c'"
    and "cy_time c - last_detection_time st \<ge> 3"
    and "va_model_loaded (ss_vision_agent st)"
    and "process_every_n_frames (ss_vision_agent st) \<noteq> 0"
    and "(frame_count (ss_vision_agent st) + 1) mod process_every_n_frames (ss_vision_agent st) = 0"
    and "cy_seen c \<noteq> []"
    and "cy_description c = Some (last_description st)"
    and "cy_time c \<le> cy_time c'"
  shows "last_detection_time (process_video_and_detection c st) = last_detection_time st
       \<and> passes (process_video_and_detection c st) = passes st @ [cy_time c]
       \<and> passes (process_video_and_detection c' (process_video_and_detection c st))
          = passes st @ [cy_time c, cy_time c']"
proof -
  define va where "va = (ss_vision_agent st)\<lparr>frame_count := frame_count (ss_vision_agent st) + 1\<rparr>"
  have det: "detect_objects (ss_vision_agent st) (cy_seen c) False = (Inr (cy_seen c), va)"
    using assms(6,7,8) by (simp add: detect_objects_def Let_def va_def)
  have one: "process_video_and_detection c st
      = st\<lparr>ss_vision_agent := va, passes := passes st @ [cy_time c]\<rparr>"
    using assms(1,2,5,9,10) by (simp add: process_video_and_detection_def Let_def det)
  have due: "cy_time c' - last_detection_time st \<ge> 3"
    using assms(5,11) by simp
  have two: "passes (process_video_and_detection c'
        (st\<lparr>ss_vision_agent := va, passes := passes st @ [cy_time c]\<rparr>))
      = passes st @ [cy_time c, cy_time c']"
    using assms(3,4) due
    by (simp add: process_video_and_detection_def Let_def split: option.splits prod.splits)
  show ?thesis
    unfolding one using two by simp
qed

text \<open>
  A fresh session with the default frame-skip setting 5; a person stands in front of the
  camera throughout. The cycles at 1000, 1003, 1006, 1009 run a pass in which the agent
  skips the frame, and the timestamp follows. The pass at 1012 is the agent's fifth call:
  the person is found and the description spoken. The passes at 1015 to 1024 are skipped
  frames again. The pass at 1027 is the tenth call: the person is found, the description
  is the one spoken last, and the timestamp stays 1024; the cycle 0.08 s later runs a
  detection pass again.
\<close>

theorem detection_repeats_when_description_repeats_witness:
  "(let c = (\<lambda>t. \<lparr>cy_cap_opened = True, cy_frame_read = True, cy_time = t,
                   cy_seen =
                     [\<lparr>det_name = Some ''person'',
                       det_bbox = Some \<lparr>bb_x_center = Some 320, bb_y_center = Some 240\<rparr>\<rparr>],
                   cy_noise_info = (None :: noise_event option),
                   cy_description = Some ''Hay una persona al frente.''\<rparr>);
        st = fold (\<lambda>t. process_video_and_detection (c t))
               [1000, 1003, 1006, 1009, 1012, 1015, 1018, 1021, 1024] (session_init 5);
        st1 = process_video_and_detection (c 1027) st;
        st2 = process_video_and_detection (c (1027 + 2 / 25)) st1
    in cy_cap_opened (c 1027) \<and> cy_frame_read (c 1027)
     \<and> cy_time (c 1027) - last_detection_time st \<ge> 3
     \<and> va_model_loaded (ss_vision_agent st)
     \<and> process_every_n_frames (ss_vision_agent st) \<noteq> 0
     \<and> (frame_count (ss_vision_agent st) + 1) mod process_every_n_frames (ss_vision_agent st) = 0
     \<and> cy_seen (c 1027) \<noteq> []
     \<and> cy_description (c 1027) = Some (last_description st)
     \<and> cy_time (c 1027) \<le> cy_time (c (1027 + 2 / 25))
     \<and> spoken st = [''Hay una persona al frente.'']
     \<and> last_detection_time st = 1024
     \<and> last_detection_time st1 = 1024
     \<and> passes st2 = [1000, 1003, 1006, 1009, 1012, 1015, 1018, 1021, 1024, 1027, 1027 + 2 / 25])"
proof -
  define c :: "real \<Rightarrow> (detection, noise_event) cycle" where "c =
    (\<lambda>t. \<lparr>cy_cap_opened = True, cy_frame_read = True, cy_time = t,
          cy_seen =
            [\<lparr>det_name = Some ''person'',
              det_bbox = Some \<lparr>bb_x_center = Some 320, bb_y_center = Some 240\<rparr>\<rparr>],
          cy_noise_info = None,
          cy_description = Some ''Hay una persona al frente.''\<rparr>)"
  define st where "st = fold (\<lambda>t. process_video_and_detection (c t))
    [1000, 1003, 1006, 1009, 1012, 1015, 1018, 1021, 1024] (session_init 5)"
  have st: "st = \<lparr>last_detection_time = 1024, last_description = ''Hay una persona al frente.'',
      ss_vision_agent = \<lparr>va_model_loaded = True, process_every_n_frames = 5, frame_count = 9\<rparr>,
      passes = [1000, 1003, 1006, 1009, 1012, 1015, 1018, 1021, 1024],
      spoken = [''Hay una persona al frente.'']\<rparr>"
    by (simp add: st_def c_def process_video_and_detection_def detect_objects_def session_init_def
        VisionAgent_init_def Let_def)
  have h1: "cy_cap_opened (c 1027)" and h2: "cy_frame_read (c 1027)"
    and h3: "cy_cap_opened (c (1027 + 2 / 25))" and h4: "cy_frame_read (c (1027 + 2 / 25))"
    and h5: "cy_time (c 1027) - last_detection_time st \<ge> 3"
    and h6: "va_model_loaded (ss_vision_agent st)"
    and h7: "process_every_n_frames (ss_vision_agent st) \<noteq> 0"
    and h8: "(frame_count (ss_vision_agent st) + 1) mod process_every_n_frames (ss_vision_agent st) = 0"
    and h9: "cy_seen (c 1027) \<noteq> []"
    and h10: "cy_description (c 1027) = Some (last_description st)"
    and h11: "cy_time (c 1027) \<le> cy_time (c (1027 + 2 / 25))"
    by (simp_all add: c_def st)
  have r: "last_detection_time (process_video_and_detection (c 1027) st) = last_detection_time st
       \<and> passes (process_video_and_detection (c 1027) st) = passes st @ [cy_time (c 1027)]
       \<and> passes (process_video_and_detection (c (1027 + 2 / 25)) (process_video_and_detection (c 1027) st))
          = passes st @ [cy_time (c 1027), cy_time (c (1027 + 2 / 25))]"
    using detection_repeats_when_description_repeats [OF h1 h2 h3 h4 h5 h6 h7 h8 h9 h10 h11] .
  have "cy_cap_opened (c 1027) \<and> cy_frame_read (c 1027)
     \<and> cy_time (c 1027) - last_detection_time st \<ge> 3
     \<and> va_model_loaded (ss_vision_agent st)
     \<and> process_every_n_frames (ss_vision_agent st) \<noteq> 0
     \<and> (frame_count (ss_vision_agent st) + 1) mod process_every_n_frames (ss_vision_agent st) = 0
     \<and> cy_seen (c 1027) \<noteq> []
     \<and> cy_description (c 1027) = Some (last_description st)
     \<and> cy_time (c 1027) \<le> cy_time (c (1027 + 2 / 25))
     \<and> spoken st = [''Hay una persona al frente.'']
     \<and> last_detection_time st = 1024
     \<and> last_detection_time (process_video_and_detection (c 1027) st) = 1024
     \<and> passes (process_video_and_detection (c (1027 + 2 / 25)) (process_video_and_detection (c 1027) st))
        = [1000, 1003, 1006, 1009, 1012, 1015, 1018, 1021, 1024, 1027, 1027 + 2 / 25]"
    using h1 h2 h5 h6 h7 h8 h9 h10 h11 r by (simp add: st c_def)
  then show ?thesis
    unfolding Let_def c_def [symmetric] st_def [symmetric] .
qed


section \<open>Description cache: the two backends\<close>

text \<open>
  With the backend answering, the two paths return the same flag and leave the same
  description and usage counter under every hash; they differ only in \<^verbatim>\<open>last_used\<close>,
  which the managed path does not refresh on an update.
\<close>

lemma backends_agree:
  "fst (cache_description_postgres ok now tbl h d) = fst (cache_description_supabase ok now tbl h d)
   \<and> map_option (\<lambda>r. (descripcion r, uso_count r)) (snd (cache_description_postgres ok now tbl h d) k)
     = map_option (\<lambda>r. (descripcion r, uso_count r)) (snd (cache_description_supabase ok now tbl h d) k)"
  by (simp add: cache_description_postgres_def cache_description_supabase_def Let_def split: option.splits)

text \<open>
  C6. Starting with no entry under the hash, caching a text and then caching a text again
  under the same hash succeeds both times and ends with a usage counter of 2 and the
  latest text stored, on the direct backend (\<open>b\<close> false) and on the managed backend (\<open>b\<close>
  true) alike, no other writer acting in between.
\<close>

theorem cache_twice_counts_two:
  assumes "tbl h = None"
  shows "fst (cache_description b True t1 tbl h d1)
       \<and> fst (cache_description b True t2 (snd (cache_description b True t1 tbl h d1)) h d2)
       \<and> map_option (\<lambda>r. (descripcion r, uso_count r))
           (snd (cache_description b True t2 (snd (cache_description b True t1 tbl h d1)) h d2) h)
         = Some (d2, 2)"
  using assms
  by (cases b) (simp_all add: cache_description_def cache_description_postgres_def cache_description_supabase_def Let_def)

theorem cache_twice_counts_two_witness:
  "(Map.empty :: cache_table) ''9e107d9d372bb6826bd81d3542a419d6'' = None
   \<and> map_option (\<lambda>r. (descripcion r, uso_count r))
        (snd (cache_description False True 20
           (snd (cache_description False True 10 Map.empty ''9e107d9d372bb6826bd81d3542a419d6'' ''Hay una silla.''))
           ''9e107d9d372bb6826bd81d3542a419d6'' ''Hay una silla.'') ''9e107d9d372bb6826bd81d3542a419d6'')
      = Some (''Hay una silla.'', 2)
   \<and> map_option (\<lambda>r. (descripcion r, uso_count r))
        (snd (cache_description True True 20
           (snd (cache_description True True 10 Map.empty ''9e107d9d372bb6826bd81d3542a419d6'' ''Hay una silla.''))
           ''9e107d9d372bb6826bd81d3542a419d6'' ''Hay una silla.'') ''9e107d9d372bb6826bd81d3542a419d6'')
      = Some (''Hay una silla.'', 2)"
proof -
  have h: "(Map.empty :: cache_table) ''9e107d9d372bb6826bd81d3542a419d6'' = None" by simp
  show ?thesis
    using h cache_twice_counts_two [OF h, where b = False and ?t1.0 = 10 and ?d1.0 = "''Hay una silla.''"
        and ?t2.0 = 20 and ?d2.0 = "''Hay una silla.''"]
      cache_twice_counts_two [OF h, where b = True and ?t1.0 = 10 and ?d1.0 = "''Hay una silla.''"
        and ?t2.0 = 20 and ?d2.0 = "''Hay una silla.''"]
    by simp
qed


section \<open>Cache key: independence of the order\<close>

lemma sort_tuple_inj: "sort_tuple a = sort_tuple b \<Longrightarrow> a = b"
  by (cases a, cases b) (simp add: sort_tuple_def)

lemma filter_eq_replicate_count: "filter (\<lambda>x. k = x) zs = replicate (count (mset zs) k) k"
  by (induction zs) auto

lemma sort_key_sort_tuple_mset:
  assumes "mset xs = mset ys"
  shows "sort_key sort_tuple xs = sort_key sort_tuple ys"
proof (rule properties_for_sort_key)
  show "mset (sort_key sort_tuple ys) = mset xs"
    using assms by simp
  show "sorted (map sort_tuple (sort_key sort_tuple ys))"
    by (rule sorted_sort_key)
  fix k
  have eq: "(\<lambda>x. sort_tuple k = sort_tuple x) = (\<lambda>x. k = x)"
    using sort_tuple_inj by auto
  show "filter (\<lambda>x. sort_tuple k = sort_tuple x) (sort_key sort_tuple ys)
      = filter (\<lambda>x. sort_tuple k = sort_tuple x) xs"
    unfolding eq filter_eq_replicate_count using assms by simp
qed

text \<open>
  C7. Two detection lists whose normalized entries, the names with the coordinates
  divided by 100 and rounded, are the same up to order (each entry as often in one list
  as in the other) get the same cache key, whatever the serializer and the hash function.
\<close>

theorem cache_key_order_independent:
  assumes "mset (map normalize_detection ds1) = mset (map normalize_detection ds2)"
  shows "create_hash_from_detections json_dumps md5_hexdigest ds1
       = create_hash_from_detections json_dumps md5_hexdigest ds2"
  using sort_key_sort_tuple_mset [OF assms]
  by (simp add: create_hash_from_detections_def)

theorem cache_key_order_independent_witness:
  "(let ds1 = [\<lparr>det_name = Some ''person'', det_bbox = Some \<lparr>bb_x_center = Some 320, bb_y_center = Some 240\<rparr>\<rparr>,
               \<lparr>det_name = Some ''chair'', det_bbox = Some \<lparr>bb_x_center = Some 100.5, bb_y_center = Some 400\<rparr>\<rparr>];
        ds2 = [\<lparr>det_name = Some ''chair'', det_bbox = Some \<lparr>bb_x_center = Some 120, bb_y_center = Some 380\<rparr>\<rparr>,
               \<lparr>det_name = Some ''person'', det_bbox = Some \<lparr>bb_x_center = Some 349, bb_y_center = Some 200\<rparr>\<rparr>];
        dumps = (\<lambda>ns. concat (map (\<lambda>n. nd_name n @ '' '' @ str_int (nd_x_center n) @ '' ''
                                        @ str_int (nd_y_center n) @ '';'') ns))
    in mset (map normalize_detection ds1) = mset (map normalize_detection ds2)
     \<and> create_hash_from_detections dumps (\<lambda>s. s) ds1 = create_hash_from_detections dumps (\<lambda>s. s) ds2)"
proof -
  define ds1 where "ds1 =
    [\<lparr>det_name = Some ''person'', det_bbox = Some \<lparr>bb_x_center = Some 320, bb_y_center = Some 240\<rparr>\<rparr>,
     \<lparr>det_name = Some ''chair'', det_bbox = Some \<lparr>bb_x_center = Some 100.5, bb_y_center = Some 400\<rparr>\<rparr>]"
  define ds2 where "ds2 =
    [\<lparr>det_name = Some ''chair'', det_bbox = Some \<lparr>bb_x_center = Some 120, bb_y_center = Some 380\<rparr>\<rparr>,
     \<lparr>det_name = Some ''person'', det_bbox = Some \<lparr>bb_x_center = Some 349, bb_y_center = Some 200\<rparr>\<rparr>]"
  have h: "mset (map normalize_detection ds1) = mset (map normalize_detection ds2)"
    by (simp add: ds1_def ds2_def normalize_detection_def py_round_def Let_def)
  show ?thesis
    using h cache_key_order_independent [OF h]
    by (simp add: Let_def ds1_def ds2_def)
qed


section \<open>Cleaning the model's text\<close>

lemma split_ws_words:
  "\<forall>c \<in> set w. \<not> py_isspace c \<Longrightarrow>
   \<forall>v \<in> set (split_ws s w). v \<noteq> [] \<and> (\<forall>c \<in> set v. \<not> py_isspace c)"
proof (induction s arbitrary: w)
  case Nil
  then show ?case by simp
next
  case (Cons a s)
  show ?case
  proof (cases "py_isspace a")
    case True
    then show ?thesis
      using Cons.IH [of "[]"] Cons.prems by auto
  next
    case False
    then have "\<forall>c \<in> set (w @ [a]). \<not> py_isspace c"
      using Cons.prems by simp
    then show ?thesis
      using Cons.IH [of "w @ [a]"] False by simp
  qed
qed

lemma split_ws_concat: "concat (split_ws s w) = w @ filter (\<lambda>c. \<not> py_isspace c) s"
  by (induction s arbitrary: w) auto

lemma split_ws_append:
  "\<forall>c \<in> set w. \<not> py_isspace c \<Longrightarrow> split_ws (w @ s) acc = split_ws s (acc @ w)"
  by (induction w arbitrary: acc) auto

lemma space_is_space: "py_isspace 32"
  by (simp add: py_isspace_def)

lemma split_ws_join:
  "\<forall>v \<in> set ws. v \<noteq> [] \<and> (\<forall>c \<in> set v. \<not> py_isspace c) \<Longrightarrow>
   split_ws (py_join [32] ws) [] = ws"
proof (induction "[32::nat]" ws rule: py_join.induct)
  case 1
  then show ?case by simp
next
  case (2 w)
  then show ?case
    using split_ws_append [of w "[]" "[]"] by simp
next
  case (3 w v ws)
  then have w: "w \<noteq> []" "\<forall>c \<in> set w. \<not> py_isspace c" by auto
  have "split_ws (py_join [32] (w # v # ws)) [] = split_ws (32 # py_join [32] (v # ws)) w"
    using split_ws_append [OF w(2), of "32 # py_join [32] (v # ws)" "[]"] by simp
  also have "\<dots> = w # split_ws (py_join [32] (v # ws)) []"
    using w(1) space_is_space by simp
  also have "\<dots> = w # v # ws"
    using 3 by simp
  finally show ?case .
qed

lemma py_join_hd:
  "ws \<noteq> [] \<Longrightarrow> hd ws \<noteq> [] \<Longrightarrow> py_join sep ws \<noteq> [] \<and> hd (py_join sep ws) = hd (hd ws)"
  by (cases "(sep, ws)" rule: py_join.cases) auto

lemma py_join_Nil: "py_join sep ws = [] \<Longrightarrow> \<forall>v \<in> set ws. v \<noteq> [] \<Longrightarrow> ws = []"
  by (cases "(sep, ws)" rule: py_join.cases) auto

lemma collapsed_hd:
  assumes "py_join [32] (py_split raw) \<noteq> []"
  shows "\<not> py_isspace (hd (py_join [32] (py_split raw)))"
proof -
  let ?ws = "py_split raw"
  have wf: "\<forall>v \<in> set ?ws. v \<noteq> [] \<and> (\<forall>c \<in> set v. \<not> py_isspace c)"
    unfolding py_split_def using split_ws_words [of "[]" raw] by simp
  have ne: "?ws \<noteq> []" using assms by auto
  then have h: "hd ?ws \<in> set ?ws" by simp
  then have "hd ?ws \<noteq> []" using wf by blast
  then have "hd (py_join [32] ?ws) = hd (hd ?ws)" "hd (hd ?ws) \<in> set (hd ?ws)"
    using py_join_hd [OF ne] by simp_all
  then show ?thesis using wf h by metis
qed

lemma py_strip_id:
  assumes "s \<noteq> []" and "\<not> py_isspace (hd s)" and "\<not> py_isspace (last s)"
  shows "py_strip s = s"
proof -
  have 1: "dropWhile py_isspace s = s"
    using assms(2) by (simp add: dropWhile_eq_self_iff)
  have "\<not> py_isspace (hd (rev s))"
    using assms(1,3) by (simp add: hd_rev)
  then have 2: "dropWhile py_isspace (rev s) = rev s"
    by (simp add: dropWhile_eq_self_iff)
  show ?thesis
    by (simp add: py_strip_def 1 2)
qed

lemma py_rfind_range: "py_rfind s c = - 1 \<or> (0 \<le> py_rfind s c \<and> py_rfind s c < int (length s))"
  by (induction s) (auto simp: Let_def)

lemma py_rfind_hit: "0 \<le> py_rfind s c \<Longrightarrow> s ! nat (py_rfind s c) = c"
proof (induction s)
  case Nil
  then show ?case by simp
next
  case (Cons x xs)
  show ?case
  proof (cases "0 \<le> py_rfind xs c")
    case True
    then show ?thesis using Cons.IH by (simp add: Let_def nat_add_distrib)
  next
    case False
    then show ?thesis using Cons.prems by (auto simp: Let_def split: if_splits)
  qed
qed

lemma py_rfind_last: "i < length s \<Longrightarrow> s ! i = c \<Longrightarrow> int i \<le> py_rfind s c"
proof (induction s arbitrary: i)
  case Nil
  then show ?case by simp
next
  case (Cons x xs)
  show ?case
  proof (cases i)
    case 0
    then show ?thesis using Cons.prems py_rfind_range [of xs c] by (auto simp: Let_def)
  next
    case (Suc j)
    then have "int j \<le> py_rfind xs c" using Cons by simp
    then show ?thesis using Suc by (simp add: Let_def)
  qed
qed

lemma py_rfind_eq:
  assumes "i < length s" and "s ! i = c" and "\<forall>j. i < j \<and> j < length s \<longrightarrow> s ! j \<noteq> c"
  shows "py_rfind s c = int i"
proof -
  have lo: "int i \<le> py_rfind s c" using py_rfind_last assms(1,2) by blast
  then have nn: "0 \<le> py_rfind s c" by simp
  have "nat (py_rfind s c) < length s" "s ! nat (py_rfind s c) = c"
    using py_rfind_range [of s c] nn py_rfind_hit [OF nn] by auto
  then have "\<not> i < nat (py_rfind s c)" using assms(3) by blast
  then show ?thesis using lo nn by linarith
qed

lemma py_rfind_none: "c \<notin> set s \<Longrightarrow> py_rfind s c = - 1"
  using py_rfind_range [of s c] py_rfind_hit [of s c]
  by (metis nat_less_iff nth_mem)

lemma py_rfind_le:
  assumes "\<forall>j. i < j \<and> j < length s \<longrightarrow> s ! j \<noteq> c"
  shows "py_rfind s c \<le> int i"
proof (cases "0 \<le> py_rfind s c")
  case True
  have "nat (py_rfind s c) < length s" "s ! nat (py_rfind s c) = c"
    using py_rfind_range [of s c] True py_rfind_hit [OF True] by auto
  then have "\<not> i < nat (py_rfind s c)" using assms by blast
  then show ?thesis by linarith
next
  case False
  then show ?thesis by simp
qed

lemma py_round_nonneg: "0 \<le> x \<Longrightarrow> 0 \<le> py_round x"
  by (simp add: py_round_def Let_def)

lemma round_double_nonneg:
  assumes "0 \<le> x"
  shows "0 \<le> round_double x"
proof -
  define ulp :: real where "ulp =
    (if 52 \<le> int (bit_length (nat \<lfloor>\<bar>x\<bar>\<rfloor>)) - 1
     then 2 ^ nat (int (bit_length (nat \<lfloor>\<bar>x\<bar>\<rfloor>)) - 1 - 52)
     else 1 / 2 ^ nat (52 - (int (bit_length (nat \<lfloor>\<bar>x\<bar>\<rfloor>)) - 1)))"
  have u: "0 < ulp" by (simp add: ulp_def)
  then have "0 \<le> \<bar>x\<bar> / ulp" by simp
  then have "0 \<le> py_round (\<bar>x\<bar> / ulp)" by (rule py_round_nonneg)
  then have "0 \<le> sgn x * of_int (py_round (\<bar>x\<bar> / ulp)) * ulp"
    using assms u by (simp add: sgn_if)
  then show ?thesis
    by (simp add: round_double_def Let_def ulp_def)
qed

lemma threshold_nonneg: "0 \<le> mx \<Longrightarrow> 0 \<le> py_int_times_float mx double_0_7"
  unfolding py_int_times_float_def
  by (intro round_double_nonneg mult_nonneg_nonneg) (simp_all add: double_0_7_def)

lemma punct_not_space: "c \<in> {46, 33, 63} \<Longrightarrow> \<not> py_isspace c"
  by (auto simp: py_isspace_def)

lemma collapsed_words:
  "\<forall>w \<in> set (py_split raw). w \<noteq> [] \<and> (\<forall>c \<in> set w. \<not> py_isspace c)"
  unfolding py_split_def using split_ws_words [of "[]" raw] by simp

lemma collapsed_split: "py_split (py_join [32] (py_split raw)) = py_split raw"
  using split_ws_join [OF collapsed_words [of raw]] by (simp add: py_split_def)

lemma clean_short:
  assumes "int (length (py_join [32] (py_split raw))) \<le> mx"
  shows "clean_description mx raw =
     (if py_join [32] (py_split raw) = [] \<or> last (py_join [32] (py_split raw)) \<in> {46, 33, 63}
      then py_join [32] (py_split raw)
      else py_join [32] (py_split raw) @ [46])"
proof -
  let ?d = "py_join [32] (py_split raw)"
  let ?d3 = "if ?d \<noteq> [] \<and> \<not> py_endswith_any ?d [46, 33, 63] then ?d @ [46] else ?d"
  have c: "clean_description mx raw = py_strip ?d3"
    using assms by (simp add: clean_description_def Let_def)
  show ?thesis
  proof (cases "?d = []")
    case True
    then show ?thesis by (simp add: c py_strip_def)
  next
    case False
    then have hd: "\<not> py_isspace (hd ?d3)"
      using collapsed_hd [of raw] by simp
    have "last ?d3 \<in> {46, 33, 63}"
      using False by (auto simp: py_endswith_any_def)
    then have "\<not> py_isspace (last ?d3)"
      by (rule punct_not_space)
    moreover have "?d3 \<noteq> []" using False by simp
    ultimately have "py_strip ?d3 = ?d3"
      using hd py_strip_id by blast
    then show ?thesis
      using False by (simp add: c py_endswith_any_def)
  qed
qed

lemma last_punct_max:
  assumes "p < length t" and "t ! p \<in> {46, 33, 63}"
    and "\<forall>i. p < i \<and> i < length t \<longrightarrow> t ! i \<notin> {46, 33, 63}"
  shows "max (py_rfind t 46) (max (py_rfind t 33) (py_rfind t 63)) = int p"
proof -
  have le: "py_rfind t 46 \<le> int p" "py_rfind t 33 \<le> int p" "py_rfind t 63 \<le> int p"
    using assms(3) by (auto intro!: py_rfind_le)
  have "py_rfind t (t ! p) = int p"
    using assms by (intro py_rfind_eq) auto
  then have "py_rfind t 46 = int p \<or> py_rfind t 33 = int p \<or> py_rfind t 63 = int p"
    using assms(2) by auto
  then show ?thesis using le by linarith
qed

lemma max_punct_is_last:
  assumes "0 \<le> max (py_rfind t 46) (max (py_rfind t 33) (py_rfind t 63))"
  shows "nat (max (py_rfind t 46) (max (py_rfind t 33) (py_rfind t 63))) < length t
       \<and> t ! nat (max (py_rfind t 46) (max (py_rfind t 33) (py_rfind t 63))) \<in> {46, 33, 63}"
proof -
  let ?m = "max (py_rfind t 46) (max (py_rfind t 33) (py_rfind t 63))"
  consider "?m = py_rfind t 46" | "?m = py_rfind t 33" | "?m = py_rfind t 63"
    by linarith
  then show ?thesis
  proof cases
    case 1
    then have "0 \<le> py_rfind t 46" using assms by simp
    then show ?thesis
      using py_rfind_hit [of t 46] py_rfind_range [of t 46] 1 by auto
  next
    case 2
    then have "0 \<le> py_rfind t 33" using assms by simp
    then show ?thesis
      using py_rfind_hit [of t 33] py_rfind_range [of t 33] 2 by auto
  next
    case 3
    then have "0 \<le> py_rfind t 63" using assms by simp
    then show ?thesis
      using py_rfind_hit [of t 63] py_rfind_range [of t 63] 3 by auto
  qed
qed

lemma max_punct_range:
  "max (py_rfind t 46) (max (py_rfind t 33) (py_rfind t 63)) = - 1
   \<or> 0 \<le> max (py_rfind t 46) (max (py_rfind t 33) (py_rfind t 63))"
  using py_rfind_range [of t 46] py_rfind_range [of t 33] py_rfind_range [of t 63]
  by linarith

lemma clean_punct:
  assumes nonneg: "0 \<le> mx" and long: "int (length (py_join [32] (py_split raw))) > mx"
    and p: "p < length (take (nat mx) (py_join [32] (py_split raw)))"
      "take (nat mx) (py_join [32] (py_split raw)) ! p \<in> {46, 33, 63}"
      "\<forall>i. p < i \<and> i < length (take (nat mx) (py_join [32] (py_split raw)))
          \<longrightarrow> take (nat mx) (py_join [32] (py_split raw)) ! i \<notin> {46, 33, 63}"
    and past: "real p > py_int_times_float mx double_0_7"
  shows "clean_description mx raw = take (p + 1) (py_join [32] (py_split raw))"
proof -
  let ?d = "py_join [32] (py_split raw)"
  let ?t = "take (nat mx) ?d"
  let ?r = "take (p + 1) ?d"
  have t: "py_slice_to ?d mx = ?t"
    using nonneg by (simp add: py_slice_to_def)
  have m: "max (py_rfind ?t 46) (max (py_rfind ?t 33) (py_rfind ?t 63)) = int p"
    using last_punct_max [OF p] .
  have pd: "p < length ?d" "p < nat mx"
    using p(1) by simp_all
  have sl: "py_slice_to ?d (int p + 1) = ?r"
    by (simp add: py_slice_to_def nat_add_distrib)
  have ne: "?r \<noteq> []" "?d \<noteq> []"
    using pd by auto
  have "last ?r = ?d ! p"
    using pd by (simp add: take_Suc_conv_app_nth)
  also have "\<dots> = ?t ! p"
    using pd by simp
  finally have lr: "last ?r \<in> {46, 33, 63}"
    using p(2) by simp
  have "hd ?r = hd ?d"
    using ne by (simp add: hd_conv_nth)
  then have "\<not> py_isspace (hd ?r)"
    using collapsed_hd [of raw] ne by simp
  then have strip: "py_strip ?r = ?r"
    using py_strip_id ne(1) punct_not_space [OF lr] by blast
  have ew: "py_endswith_any ?r [46, 33, 63]"
    using lr ne by (simp add: py_endswith_any_def)
  have past': "real_of_int (int p) > py_int_times_float mx double_0_7"
    using past by simp
  show ?thesis
    unfolding clean_description_def Let_def t m sl
    using long past' ew strip by simp
qed

lemma rsplit_head:
  "(32 \<notin> set t \<longrightarrow> py_rsplit1_head t 32 = t)
   \<and> (\<forall>q. q < length t \<and> t ! q = 32 \<and> (\<forall>i. q < i \<and> i < length t \<longrightarrow> t ! i \<noteq> 32)
          \<longrightarrow> py_rsplit1_head t 32 = take q t)"
  by (auto simp: py_rsplit1_head_def Let_def py_rfind_none py_rfind_eq)

lemma rsplit_head_prefix: "\<exists>n. py_rsplit1_head t c = take n t"
proof (cases "py_rfind t c < 0")
  case True
  then have "py_rsplit1_head t c = take (length t) t"
    by (simp add: py_rsplit1_head_def)
  then show ?thesis ..
next
  case False
  then have "py_rsplit1_head t c = take (nat (py_rfind t c)) t"
    by (simp add: py_rsplit1_head_def)
  then show ?thesis ..
qed

lemma clean_word:
  assumes nonneg: "0 \<le> mx" and long: "int (length (py_join [32] (py_split raw))) > mx"
    and none: "\<forall>p. p < length (take (nat mx) (py_join [32] (py_split raw)))
        \<and> take (nat mx) (py_join [32] (py_split raw)) ! p \<in> {46, 33, 63}
        \<longrightarrow> \<not> real p > py_int_times_float mx double_0_7"
  shows "clean_description mx raw
       = py_rsplit1_head (take (nat mx) (py_join [32] (py_split raw))) 32 @ [46]"
proof -
  let ?d = "py_join [32] (py_split raw)"
  let ?t = "take (nat mx) ?d"
  let ?m = "max (py_rfind ?t 46) (max (py_rfind ?t 33) (py_rfind ?t 63))"
  let ?r = "py_rsplit1_head ?t 32 @ [46]"
  have t: "py_slice_to ?d mx = ?t"
    using nonneg by (simp add: py_slice_to_def)
  have notpast: "\<not> real_of_int ?m > py_int_times_float mx double_0_7"
  proof (cases "0 \<le> ?m")
    case True
    then have "\<not> real (nat ?m) > py_int_times_float mx double_0_7"
      using max_punct_is_last [OF True] none by blast
    then show ?thesis using True by simp
  next
    case False
    then have "?m = - 1" using max_punct_range [of ?t] by linarith
    moreover have "0 \<le> py_int_times_float mx double_0_7"
      using nonneg by (rule threshold_nonneg)
    ultimately show ?thesis by simp
  qed
  have dne: "?d \<noteq> []" using long nonneg by auto
  obtain n where n: "py_rsplit1_head ?t 32 = take n ?t"
    using rsplit_head_prefix by blast
  have "\<not> py_isspace (hd ?r)"
  proof (cases "py_rsplit1_head ?t 32 = []")
    case True
    then show ?thesis by (simp add: py_isspace_def)
  next
    case False
    then have "n \<noteq> 0" "?t \<noteq> []" using n by auto
    then have "hd (py_rsplit1_head ?t 32) = hd ?d"
      using n by (simp add: hd_conv_nth)
    then show ?thesis
      using collapsed_hd [of raw] dne False by simp
  qed
  moreover have "\<not> py_isspace (last ?r)"
    by (simp add: py_isspace_def)
  ultimately have strip: "py_strip ?r = ?r"
    using py_strip_id [of ?r] by simp
  have ew: "py_endswith_any ?r [46, 33, 63]"
    by (simp add: py_endswith_any_def)
  show ?thesis
    unfolding clean_description_def Let_def t
    using long notpast ew strip by simp
qed

text \<open>
  C8, as amended. Let \<open>d\<close> be the words of the raw text (its maximal runs of
  non-whitespace, in order) joined by single spaces, and \<open>t\<close> the first \<open>mx\<close> characters of
  \<open>d\<close>, for a maximum length \<open>mx\<close> that is not negative. If \<open>d\<close> is no longer than \<open>mx\<close>,
  the result is \<open>d\<close>, with a period appended when \<open>d\<close> is not empty and does not end with a
  period, exclamation mark or question mark. If \<open>d\<close> is longer: when the last such mark
  in \<open>t\<close> stands at an index above the double-precision product of \<open>mx\<close> and 0.7, the
  result is \<open>d\<close> up to and including that mark; when no such mark in \<open>t\<close> stands above that
  product, the result is \<open>t\<close> up to its last space (all of \<open>t\<close> when it has none) with a
  period appended. Whenever the raw text has a word at all the result ends with a period,
  exclamation mark or question mark; a raw text without a word gives the empty text.
\<close>

theorem clean_description_spec:
  assumes "0 \<le> mx"
  shows
    "(let ws = py_split raw;
          d = py_join [32] ws;
          t = take (nat mx) d;
          out = clean_description mx raw
      in (\<forall>w \<in> set ws. w \<noteq> [] \<and> (\<forall>c \<in> set w. \<not> py_isspace c))
       \<and> concat ws = filter (\<lambda>c. \<not> py_isspace c) raw
       \<and> py_split d = ws
       \<and> (int (length d) \<le> mx \<longrightarrow>
             out = (if d = [] \<or> last d \<in> {46, 33, 63} then d else d @ [46]))
       \<and> (int (length d) > mx \<longrightarrow>
             (\<forall>p. p < length t \<and> t ! p \<in> {46, 33, 63}
                   \<and> (\<forall>i. p < i \<and> i < length t \<longrightarrow> t ! i \<notin> {46, 33, 63})
                   \<and> real p > py_int_times_float mx double_0_7
                \<longrightarrow> out = take (p + 1) d)
           \<and> ((\<forall>p. p < length t \<and> t ! p \<in> {46, 33, 63} \<longrightarrow> \<not> real p > py_int_times_float mx double_0_7)
                \<longrightarrow> (32 \<notin> set t \<longrightarrow> out = t @ [46])
                  \<and> (\<forall>q. q < length t \<and> t ! q = 32
                         \<and> (\<forall>i. q < i \<and> i < length t \<longrightarrow> t ! i \<noteq> 32)
                       \<longrightarrow> out = take q t @ [46])))
       \<and> (d \<noteq> [] \<longrightarrow> out \<noteq> [] \<and> last out \<in> {46, 33, 63})
       \<and> (d = [] \<longrightarrow> out = []))"
proof -
  define ws where "ws = py_split raw"
  define d where "d = py_join [32] ws"
  define t where "t = take (nat mx) d"
  define out where "out = clean_description mx raw"
  note defs = ws_def d_def t_def out_def
  have a1: "\<forall>w \<in> set ws. w \<noteq> [] \<and> (\<forall>c \<in> set w. \<not> py_isspace c)"
    unfolding defs by (rule collapsed_words)
  have a2: "concat ws = filter (\<lambda>c. \<not> py_isspace c) raw"
    unfolding defs py_split_def by (simp add: split_ws_concat)
  have a3: "py_split d = ws"
    unfolding defs by (rule collapsed_split)
  have b0: "int (length d) \<le> mx \<longrightarrow>
      out = (if d = [] \<or> last d \<in> {46, 33, 63} then d else d @ [46])"
    unfolding defs using clean_short [of raw mx] by blast
  have b1: "\<forall>p. p < length t \<and> t ! p \<in> {46, 33, 63}
        \<and> (\<forall>i. p < i \<and> i < length t \<longrightarrow> t ! i \<notin> {46, 33, 63})
        \<and> real p > py_int_times_float mx double_0_7
      \<longrightarrow> out = take (p + 1) d"
    if "int (length d) > mx"
    using clean_punct [OF assms, of raw] that unfolding defs by blast
  have b2: "(32 \<notin> set t \<longrightarrow> out = t @ [46])
      \<and> (\<forall>q. q < length t \<and> t ! q = 32 \<and> (\<forall>i. q < i \<and> i < length t \<longrightarrow> t ! i \<noteq> 32)
            \<longrightarrow> out = take q t @ [46])"
    if "int (length d) > mx"
      and "\<forall>p. p < length t \<and> t ! p \<in> {46, 33, 63} \<longrightarrow> \<not> real p > py_int_times_float mx double_0_7"
  proof -
    have "out = py_rsplit1_head t 32 @ [46]"
      using clean_word [OF assms, of raw] that unfolding defs by blast
    then show ?thesis
      using rsplit_head [of t] by simp
  qed
  have c0: "out = []" if "d = []"
    using b0 that assms by simp
  have c1: "out \<noteq> [] \<and> last out \<in> {46, 33, 63}" if dne: "d \<noteq> []"
  proof (cases "int (length d) \<le> mx")
    case True
    then show ?thesis using b0 dne by auto
  next
    case long: False
    let ?m = "max (py_rfind t 46) (max (py_rfind t 33) (py_rfind t 63))"
    show ?thesis
    proof (cases "\<forall>p. p < length t \<and> t ! p \<in> {46, 33, 63} \<longrightarrow> \<not> real p > py_int_times_float mx double_0_7")
      case True
      have "out = py_rsplit1_head t 32 @ [46]"
        using clean_word [OF assms, of raw] long True unfolding defs by simp
      then show ?thesis by simp
    next
      case False
      then obtain p0 where p0: "p0 < length t" "t ! p0 \<in> {46, 33, 63}" "real p0 > py_int_times_float mx double_0_7"
        by blast
      have "t ! p0 = 46 \<or> t ! p0 = 33 \<or> t ! p0 = 63" using p0(2) by simp
      then have "int p0 \<le> ?m"
        using py_rfind_last [OF p0(1), of 46] py_rfind_last [OF p0(1), of 33]
          py_rfind_last [OF p0(1), of 63] by linarith
      then have m0: "0 \<le> ?m" and mp: "p0 \<le> nat ?m" by linarith+
      have last: "nat ?m < length t" "t ! nat ?m \<in> {46, 33, 63}"
        using max_punct_is_last [OF m0] by simp_all
      have after: "\<forall>i. nat ?m < i \<and> i < length t \<longrightarrow> t ! i \<notin> {46, 33, 63}"
      proof (intro allI impI)
        fix i assume i: "nat ?m < i \<and> i < length t"
        show "t ! i \<notin> {46, 33, 63}"
        proof
          assume "t ! i \<in> {46, 33, 63}"
          then have "t ! i = 46 \<or> t ! i = 33 \<or> t ! i = 63" by simp
          then have "int i \<le> ?m"
            using i py_rfind_last [of i t 46] py_rfind_last [of i t 33] py_rfind_last [of i t 63]
            by linarith
          then show False using i by linarith
        qed
      qed
      have past: "real (nat ?m) > py_int_times_float mx double_0_7"
        using p0(3) mp by linarith
      have o: "out = take (nat ?m + 1) d"
        using b1 long last after past by simp
      have md: "nat ?m < length d" using last(1) by (simp add: t_def)
      then have "last (take (nat ?m + 1) d) = t ! nat ?m"
        using last(1) by (simp add: take_Suc_conv_app_nth t_def)
      then show ?thesis
        using o last(2) md by auto
    qed
  qed
  have "(\<forall>w \<in> set ws. w \<noteq> [] \<and> (\<forall>c \<in> set w. \<not> py_isspace c))
       \<and> concat ws = filter (\<lambda>c. \<not> py_isspace c) raw
       \<and> py_split d = ws
       \<and> (int (length d) \<le> mx \<longrightarrow>
             out = (if d = [] \<or> last d \<in> {46, 33, 63} then d else d @ [46]))
       \<and> (int (length d) > mx \<longrightarrow>
             (\<forall>p. p < length t \<and> t ! p \<in> {46, 33, 63}
                   \<and> (\<forall>i. p < i \<and> i < length t \<longrightarrow> t ! i \<notin> {46, 33, 63})
                   \<and> real p > py_int_times_float mx double_0_7
                \<longrightarrow> out = take (p + 1) d)
           \<and> ((\<forall>p. p < length t \<and> t ! p \<in> {46, 33, 63} \<longrightarrow> \<not> real p > py_int_times_float mx double_0_7)
                \<longrightarrow> (32 \<notin> set t \<longrightarrow> out = t @ [46])
                  \<and> (\<forall>q. q < length t \<and> t ! q = 32
                         \<and> (\<forall>i. q < i \<and> i < length t \<longrightarrow> t ! i \<noteq> 32)
                       \<longrightarrow> out = take q t @ [46])))
       \<and> (d \<noteq> [] \<longrightarrow> out \<noteq> [] \<and> last out \<in> {46, 33, 63})
       \<and> (d = [] \<longrightarrow> out = [])"
    using a1 a2 a3 b0 b1 b2 c0 c1 by blast
  then show ?thesis
    unfolding Let_def defs .
qed

text \<open>
  The threshold for the default limit 500 is exactly 350. For the limit 90 the double
  product is the double just below 63, so a mark at index 63, exactly 70 percent of the
  limit, counts as past it.
\<close>

lemma threshold_default: "py_int_times_float 500 double_0_7 = 350"
  by (simp add: py_int_times_float_def round_double_def double_0_7_def py_round_def
      bit_length.simps Let_def)

lemma threshold_90: "py_int_times_float 90 double_0_7 = 63 - 1 / 2 ^ 47"
  by (simp add: py_int_times_float_def round_double_def double_0_7_def py_round_def
      bit_length.simps Let_def)

lemma threshold_20: "py_int_times_float 20 double_0_7 = 14"
  by (simp add: py_int_times_float_def round_double_def double_0_7_def py_round_def
      bit_length.simps Let_def)

lemma clean_example_sentence: "clean_description 20 (py_str ''Uno  dos tres cuatro.  Cinco seis'') = py_str ''Uno dos tres cuatro.''"
  by (simp add: clean_description_def py_split_def py_isspace_def py_strip_def py_endswith_any_def
      py_slice_to_def py_rsplit1_head_def py_str_def threshold_20 Let_def)

lemma clean_example_word: "clean_description 20 (py_str ''Uno dos tres. Cuatro cinco seis'') = py_str ''Uno dos tres..''"
  by (simp add: clean_description_def py_split_def py_isspace_def py_strip_def py_endswith_any_def
      py_slice_to_def py_rsplit1_head_def py_str_def threshold_20 Let_def)

lemma clean_example_short: "clean_description 20 (py_str ''  Hola   mundo '') = py_str ''Hola mundo.''"
  by (simp add: clean_description_def py_split_def py_isspace_def py_strip_def py_endswith_any_def
      py_slice_to_def py_rsplit1_head_def py_str_def threshold_20 Let_def)

text \<open>
  At the limit 90, a text of 94 characters whose only mark is the period at index 63 is
  cut at that period.
\<close>

lemma clean_example_limit_90:
  "clean_description 90
     (py_str ''aaaa aaaa aaaa aaaa aaaa aaaa aaaa aaaa aaaa aaaa aaaa aaaa aaa. bbbb bbbb bbbb bbbb bbbb bbbb'')
   = py_str ''aaaa aaaa aaaa aaaa aaaa aaaa aaaa aaaa aaaa aaaa aaaa aaaa aaa.''"
  by (simp add: clean_description_def py_split_def py_isspace_def py_strip_def py_endswith_any_def
      py_slice_to_def py_rsplit1_head_def py_str_def threshold_90 Let_def)

text \<open>
  A raw text of one space: the cleaned text is empty, and so does not end with a period,
  exclamation mark or question mark. The period is appended only to a non-empty text.
\<close>

theorem empty_text_stays_empty:
  "\<not> py_endswith_any (clean_description 500 (py_str '' '')) [46, 33, 63]"
  by (simp add: clean_description_def py_split_def py_isspace_def py_strip_def py_endswith_any_def
      py_str_def Let_def)


theorem clean_description_spec_witness:
  "(0::int) \<le> 20
   \<and> clean_description 20 (py_str ''Uno  dos tres cuatro.  Cinco seis'') = py_str ''Uno dos tres cuatro.''
   \<and> clean_description 20 (py_str ''Uno dos tres. Cuatro cinco seis'') = py_str ''Uno dos tres..''
   \<and> clean_description 20 (py_str ''  Hola   mundo '') = py_str ''Hola mundo.''
   \<and> py_join [32] (py_split (py_str ''  Hola   mundo '')) \<noteq> []
   \<and> last (clean_description 20 (py_str ''  Hola   mundo '')) \<in> {46, 33, 63}"
proof -
  have h: "(0::int) \<le> 20" by simp
  have d: "py_join [32] (py_split (py_str ''  Hola   mundo '')) \<noteq> []"
    by (simp add: py_split_def py_isspace_def py_str_def)
  have l: "last (clean_description 20 (py_str ''  Hola   mundo '')) \<in> {46, 33, 63}"
    using clean_description_spec [OF h, of "py_str ''  Hola   mundo ''"] d
    unfolding Let_def by blast
  show ?thesis
    using h d l clean_example_sentence clean_example_word clean_example_short by blast
qed

end
